theory Spec2Isabelle
  imports Complex_Main "HOL-Library.Log_Nat"
begin

section \<open>JavaScript strings and the regular expressions of index.js\<close>

text \<open>
  A JavaScript string is a sequence of code units and \<open>.length\<close> counts them; it is
  modelled as a \<^typ>\<open>string\<close>, each \<^typ>\<open>char\<close> standing for one code unit below 256.
  Every regular expression of the source is written out as the matcher it denotes: each
  of them is deterministic (a greedy class is always followed by a character outside the
  class, a lazy wildcard by a fixed closing text), so the first match that backtracking
  finds is the one computed here.
\<close>

text \<open>\<open>String.prototype.startsWith\<close> and \<open>String.prototype.includes\<close>.\<close>

fun startsWith :: "string \<Rightarrow> string \<Rightarrow> bool" where
  "startsWith s [] = True"
| "startsWith [] (p # ps) = False"
| "startsWith (c # cs) (p # ps) = (c = p \<and> startsWith cs ps)"

fun includes_str :: "string \<Rightarrow> string \<Rightarrow> bool" where
  "includes_str [] p = (p = [])"
| "includes_str (c # cs) p = (startsWith (c # cs) p \<or> includes_str cs p)"

text \<open>The class \<open>\s\<close> (and the characters \<open>trim\<close> strips), restricted to code units below 256.\<close>

definition is_space :: "char \<Rightarrow> bool" where
  "is_space c = (c = CHR 0x09 \<or> c = CHR 0x0A \<or> c = CHR 0x0B \<or> c = CHR 0x0C
               \<or> c = CHR 0x0D \<or> c = CHR 0x20 \<or> c = CHR 0xA0)"

definition skip_ws :: "string \<Rightarrow> string" where
  "skip_ws s = dropWhile is_space s"

definition trim :: "string \<Rightarrow> string" where
  "trim s = rev (dropWhile is_space (rev (dropWhile is_space s)))"

text \<open>The class \<open>[`"']\<close>.\<close>

definition is_quote :: "char \<Rightarrow> bool" where
  "is_quote c = (c = CHR 0x60 \<or> c = CHR 0x22 \<or> c = CHR 0x27)"

text \<open>The rest of the text after a literal, when the text starts with it.\<close>

definition after_literal :: "string \<Rightarrow> string \<Rightarrow> string option" where
  "after_literal lit s = (if startsWith s lit then Some (drop (length lit) s) else None)"

text \<open>
  \<open>String.prototype.match\<close> with a pattern that has no \<open>g\<close> flag: the matcher is tried at
  every start position from the left, the end of the text included.
\<close>

fun first_match :: "(string \<Rightarrow> 'a option) \<Rightarrow> string \<Rightarrow> 'a option" where
  "first_match m [] = m []"
| "first_match m (c # cs) = (case m (c # cs) of Some x \<Rightarrow> Some x | None \<Rightarrow> first_match m cs)"

text \<open>\<open>([\s\S]*?)\}\s*\)\<close>: the shortest text up to a closing brace that is followed,
  after optional white space, by a closing parenthesis.\<close>

definition closes_call :: "string \<Rightarrow> bool" where
  "closes_call s = (case skip_ws s of [] \<Rightarrow> False | d # _ \<Rightarrow> d = CHR '')'')"

fun lazy_until_call_end :: "string \<Rightarrow> string option" where
  "lazy_until_call_end [] = None"
| "lazy_until_call_end (c # cs) =
     (if c = CHR ''}'' \<and> closes_call cs then Some []
      else map_option ((#) c) (lazy_until_call_end cs))"

text \<open>\<open>/generateSEO\s*\(\s*\{([\s\S]*?)\}\s*\)/\<close> at one start position; the result is group 1.\<close>

definition generateSEO_call_at :: "string \<Rightarrow> string option" where
  "generateSEO_call_at s =
     (case after_literal ''generateSEO'' s of
        None \<Rightarrow> None
      | Some r \<Rightarrow>
          (case skip_ws r of
             [] \<Rightarrow> None
           | p # r2 \<Rightarrow>
               if p \<noteq> CHR ''('' then None
               else (case skip_ws r2 of
                       [] \<Rightarrow> None
                     | b # r3 \<Rightarrow> if b \<noteq> CHR ''{'' then None else lazy_until_call_end r3)))"

definition generateSEO_call :: "string \<Rightarrow> string option" where
  "generateSEO_call content = first_match generateSEO_call_at content"

text \<open>\<open>/name:\s*[`"']([^`"']*)[`"']/\<close> at one start position; the result is group 1.\<close>

definition quoted_field_at :: "string \<Rightarrow> string \<Rightarrow> string option" where
  "quoted_field_at name s =
     (case after_literal (name @ '':'') s of
        None \<Rightarrow> None
      | Some r \<Rightarrow>
          (case skip_ws r of
             [] \<Rightarrow> None
           | q # r2 \<Rightarrow>
               if \<not> is_quote q then None
               else if dropWhile (\<lambda>c. \<not> is_quote c) r2 = [] then None
               else Some (takeWhile (\<lambda>c. \<not> is_quote c) r2)))"

definition quoted_field :: "string \<Rightarrow> string \<Rightarrow> string option" where
  "quoted_field name s = first_match (quoted_field_at name) s"

text \<open>The second alternative of the image pattern, \<open>image:\s*`([^`]*)`\<close>; the result is group 2.\<close>

definition backtick_field_at :: "string \<Rightarrow> string \<Rightarrow> string option" where
  "backtick_field_at name s =
     (case after_literal (name @ '':'') s of
        None \<Rightarrow> None
      | Some r \<Rightarrow>
          (case skip_ws r of
             [] \<Rightarrow> None
           | q # r2 \<Rightarrow>
               if q \<noteq> CHR 0x60 then None
               else if dropWhile (\<lambda>c. c \<noteq> CHR 0x60) r2 = [] then None
               else Some (takeWhile (\<lambda>c. c \<noteq> CHR 0x60) r2)))"

text \<open>
  \<open>/image:\s*[`"']([^`"']*)[`"']|image:\s*`([^`]*)`/\<close>: at each start position the first
  alternative is tried before the second. The result is the pair of groups 1 and 2, the
  group of the alternative that did not match being undefined.
\<close>

definition image_alternatives_at :: "string \<Rightarrow> (string option \<times> string option) option" where
  "image_alternatives_at s =
     (case quoted_field_at ''image'' s of
        Some g1 \<Rightarrow> Some (Some g1, None)
      | None \<Rightarrow>
          (case backtick_field_at ''image'' s of
             Some g2 \<Rightarrow> Some (None, Some g2)
           | None \<Rightarrow> None))"

text \<open>\<open>a || b\<close> on two groups: a group that is undefined or the empty string is falsy.\<close>

definition or_group :: "string option \<Rightarrow> string option \<Rightarrow> string option" where
  "or_group a b = (case a of Some (c # cs) \<Rightarrow> Some (c # cs) | _ \<Rightarrow> b)"

text \<open>\<open>name:\s*\[([\s\S]*?)\]\<close> and \<open>name:\s*\{([\s\S]*?)\}\<close> at one start position:
  the bracketed span is the text up to the first closing bracket.\<close>

definition bracketed_at :: "char \<Rightarrow> char \<Rightarrow> string \<Rightarrow> string \<Rightarrow> string option" where
  "bracketed_at lb rb name s =
     (case after_literal (name @ '':'') s of
        None \<Rightarrow> None
      | Some r \<Rightarrow>
          (case skip_ws r of
             [] \<Rightarrow> None
           | b # r2 \<Rightarrow>
               if b \<noteq> lb then None
               else if dropWhile (\<lambda>c. c \<noteq> rb) r2 = [] then None
               else Some (takeWhile (\<lambda>c. c \<noteq> rb) r2)))"

definition array_span :: "string \<Rightarrow> string \<Rightarrow> string option" where
  "array_span name s = first_match (bracketed_at (CHR ''['') (CHR '']'') name) s"

definition object_span :: "string \<Rightarrow> string \<Rightarrow> string option" where
  "object_span name s = first_match (bracketed_at (CHR ''{'') (CHR ''}'') name) s"

text \<open>\<open>(arrayContent.match(/\{/g) || []).length\<close>.\<close>

definition count_open_braces :: "string \<Rightarrow> nat" where
  "count_open_braces s = length (filter (\<lambda>c. c = CHR ''{'') s)"

section \<open>The parameter extractor\<close>

text \<open>
  The object \<open>params\<close> built by \<open>extractGenerateSEOParams\<close>. A property that was never
  assigned (or was assigned \<open>undefined\<close>) is \<open>None\<close>, respectively \<open>False\<close> for the three
  presence flags, which are only ever assigned \<open>true\<close>. \<open>breadcrumb\<close> is read by
  \<open>mapParamsToSchemas\<close> and never assigned by the extractor.
\<close>

record params =
  title :: "string option"
  description :: "string option"
  image :: "string option"
  faqs :: "nat option"
  branches :: "nat option"
  services :: "nat option"
  products :: "nat option"
  news :: "nat option"
  "grant" :: bool
  contactPage :: bool
  awards :: bool
  breadcrumb :: bool

text \<open>The body of the \<open>arrayParams.forEach\<close> callback, as the value stored for one name.\<close>

definition array_count :: "string \<Rightarrow> string \<Rightarrow> nat option" where
  "array_count name paramString =
     (case array_span name paramString of
        None \<Rightarrow> None
      | Some g \<Rightarrow>
          (let arrayContent = trim g in
           if arrayContent = [] then None
           else (let objectCount = count_open_braces arrayContent
                 in Some (if objectCount > 0 then objectCount else 1))))"

definition object_present :: "string \<Rightarrow> string \<Rightarrow> bool" where
  "object_present name paramString = (object_span name paramString \<noteq> None)"

definition extractGenerateSEOParams :: "string \<Rightarrow> params option" where
  "extractGenerateSEOParams content =
     (case generateSEO_call content of
        None \<Rightarrow> None
      | Some paramString \<Rightarrow>
          Some \<lparr> title = quoted_field ''title'' paramString,
                 description = quoted_field ''description'' paramString,
                 image = (case first_match image_alternatives_at paramString of
                            None \<Rightarrow> None
                          | Some (g1, g2) \<Rightarrow> or_group g1 g2),
                 faqs = array_count ''faqs'' paramString,
                 branches = array_count ''branches'' paramString,
                 services = array_count ''services'' paramString,
                 products = array_count ''products'' paramString,
                 news = array_count ''news'' paramString,
                 grant = object_present ''grant'' paramString,
                 contactPage = object_present ''contactPage'' paramString,
                 awards = object_present ''awards'' paramString,
                 breadcrumb = False \<rparr>)"

text \<open>The constant \<open>arrayParams\<close>, and the property read \<open>params[name]\<close> for its names.\<close>

definition arrayParams :: "string list" where
  "arrayParams = [''faqs'', ''branches'', ''services'', ''products'', ''news'']"

definition param_count :: "string \<Rightarrow> params \<Rightarrow> nat option" where
  "param_count name p =
     (if name = ''faqs'' then faqs p
      else if name = ''branches'' then branches p
      else if name = ''services'' then services p
      else if name = ''products'' then products p
      else if name = ''news'' then news p
      else None)"

section \<open>Numbers in template literals\<close>

text \<open>The decimal text of a non-negative integer, as a template literal prints it.\<close>

definition digit_char :: "nat \<Rightarrow> char" where
  "digit_char d = ''0123456789'' ! d"

function string_of_nat :: "nat \<Rightarrow> string" where
  "string_of_nat n = (if n < 10 then [digit_char n] else string_of_nat (n div 10) @ [digit_char (n mod 10)])"
  by pat_completeness auto
termination
  by (relation "measure id") auto

declare string_of_nat.simps [simp del]

section \<open>The fallback mapping from parameters to schema types\<close>

text \<open>\<open>params.faqs && params.faqs > 0\<close>: the count, when it is defined and positive.\<close>

definition positive_count :: "nat option \<Rightarrow> nat option" where
  "positive_count c = (case c of None \<Rightarrow> None | Some n \<Rightarrow> if n > 0 then Some n else None)"

definition counted_schema :: "string \<Rightarrow> string \<Rightarrow> nat option \<Rightarrow> string list" where
  "counted_schema type_name unit_name c =
     (case positive_count c of
        None \<Rightarrow> []
      | Some n \<Rightarrow> [type_name @ '' ('' @ string_of_nat n @ '' '' @ unit_name @ '')''])"

definition mapParamsToSchemas :: "params option \<Rightarrow> string list" where
  "mapParamsToSchemas ps =
     (case ps of
        None \<Rightarrow> []
      | Some p \<Rightarrow>
          [''WebPage'', ''Organization'']
          @ counted_schema ''FAQPage'' ''FAQs'' (faqs p)
          @ counted_schema ''Product'' ''products'' (products p)
          @ counted_schema ''Service'' ''services'' (services p)
          @ counted_schema ''LocalBusiness'' ''branches'' (branches p)
          @ counted_schema ''NewsArticle'' ''articles'' (news p)
          @ (if grant p then [''Grant''] else [])
          @ (if contactPage p then [''ContactPage''] else [])
          @ (if awards p then [''Awards''] else [])
          @ (if breadcrumb p then [''BreadcrumbList''] else []))"


text \<open>
  An entry of a schema list that the fallback mapping derives from one of the collection
  fields other than \<open>products\<close>: such an entry starts with the type name of its field.
\<close>

definition other_collection_entry :: "string \<Rightarrow> bool" where
  "other_collection_entry s =
     (startsWith s ''FAQPage'' \<or> startsWith s ''Service'' \<or> startsWith s ''LocalBusiness''
      \<or> startsWith s ''NewsArticle'')"

section \<open>The sandbox output\<close>

text \<open>
  \<open>evaluateGenerateSEO\<close> runs the project's own \<open>generateSEO\<close> in a \<open>vm\<close> context; what it
  returns is decided by a file outside this repository, so the evaluator is a parameter of
  the model. Its result is \<open>None\<close> for \<open>null\<close> and otherwise a head object of the shape the
  checker reads: a \<open>meta\<close> array and a \<open>link\<close> array (each possibly absent) whose entries have
  string properties (\<open>None\<close> when undefined), and a script payload. Reading a property of
  an undefined value throws a \<open>TypeError\<close>.
\<close>

datatype js_error = TypeError

record meta_entry =
  m_name :: "string option"
  m_hid :: "string option"
  m_property :: "string option"
  m_content :: "string option"

record link_entry =
  rel :: "string option"

text \<open>A member of \<open>@graph\<close>: its \<open>@type\<close> and, when it has a \<open>mainEntity\<close> array, the
  length of that array.\<close>

record graph_item =
  atype :: "string option"
  mainEntity :: "nat option"

text \<open>
  What \<open>seoOutput.script[0].innerHTML\<close> amounts to: absent (\<open>NoScript\<close>); a text on
  which \<open>JSON.parse\<close> or the traversal of its value throws, which the inner \<open>catch\<close>
  handles (\<open>Unparsable\<close>); a value without \<open>@graph\<close>; or a value with the \<open>@graph\<close> array.
\<close>

datatype script_payload = NoScript | Unparsable | ParsedNoGraph | ParsedGraph "graph_item list"

record seo_output =
  meta :: "meta_entry list option"
  link :: "link_entry list option"
  script :: script_payload

section \<open>The metadata normalizer\<close>

text \<open>
  An object used as a set of flags (\<open>obj[key] = true\<close>) is the list of its own keys in
  insertion order. Assigning \<open>true\<close> to \<open>__proto__\<close> adds no own key. A read \<open>obj[key]\<close>
  also finds the properties every object inherits from \<open>Object.prototype\<close>, all truthy.
\<close>

definition object_prototype_keys :: "string list" where
  "object_prototype_keys =
     [''constructor'', ''__defineGetter__'', ''__defineSetter__'', ''hasOwnProperty'',
      ''__lookupGetter__'', ''__lookupSetter__'', ''isPrototypeOf'', ''propertyIsEnumerable'',
      ''toString'', ''valueOf'', ''__proto__'', ''toLocaleString'']"

definition set_flag :: "string \<Rightarrow> string list \<Rightarrow> string list" where
  "set_flag k ks = (if k = ''__proto__'' \<or> k \<in> set ks then ks else ks @ [k])"

definition has_flag :: "string list \<Rightarrow> string \<Rightarrow> bool" where
  "has_flag ks k = (k \<in> set ks \<or> k \<in> set object_prototype_keys)"

text \<open>\<open>String.prototype.replace\<close> with a string pattern (first occurrence only), the
  replacement of every capital letter by its lower case, and \<open>Array.prototype.join\<close>.\<close>

fun replace_first :: "string \<Rightarrow> string \<Rightarrow> string \<Rightarrow> string" where
  "replace_first pat rep [] = (if pat = [] then rep else [])"
| "replace_first pat rep (c # cs) =
     (if startsWith (c # cs) pat then rep @ drop (length pat) (c # cs)
      else c # replace_first pat rep cs)"

definition lower_char :: "char \<Rightarrow> char" where
  "lower_char c =
     (case map_of (zip ''ABCDEFGHIJKLMNOPQRSTUVWXYZ'' ''abcdefghijklmnopqrstuvwxyz'') c of
        Some l \<Rightarrow> l
      | None \<Rightarrow> c)"

definition lower_capitals :: "string \<Rightarrow> string" where
  "lower_capitals s = map lower_char s"

fun join :: "string \<Rightarrow> string list \<Rightarrow> string" where
  "join sep [] = []"
| "join sep [x] = x"
| "join sep (x # y # ys) = x @ sep @ join sep (y # ys)"

text \<open>
  The object \<open>metaInfo\<close>. Its properties \<open>title\<close> and \<open>description\<close> are the fields
  \<open>meta_title\<close> and \<open>meta_description\<close> here (the names are taken by the parameter set);
  \<open>canonical\<close> is \<open>null\<close> or \<open>true\<close>; \<open>ogImage\<close> is undefined until assigned.
\<close>

record metaInfo =
  meta_title :: "string option"
  meta_description :: "string option"
  ogTags :: "string list"
  twitterTags :: "string list"
  canonical :: bool
  issues :: "string list"
  ogImage :: "string option"

text \<open>The two length checks, which read nothing of the text but its \<open>.length\<close>.\<close>

definition title_length_check :: "nat \<Rightarrow> string list" where
  "title_length_check n =
     (if n < 30 then [''Title too short ('' @ string_of_nat n @ '' chars, recommended: 50-60)'']
      else if n > 60 then [''Title too long ('' @ string_of_nat n @ '' chars, recommended: 50-60)'']
      else [])"

definition description_length_check :: "nat \<Rightarrow> string list" where
  "description_length_check n =
     (if n < 120
      then [''Meta description too short ('' @ string_of_nat n @ '' chars, recommended: 120-160)'']
      else if n > 160
      then [''Meta description too long ('' @ string_of_nat n @ '' chars, recommended: 120-160)'']
      else [])"

text \<open>The two checks for missing required tags and the constants they use.\<close>

definition requiredOgTags :: "string list" where
  "requiredOgTags = [''title'', ''description'', ''image'', ''url'']"

definition requiredTwitterTags :: "string list" where
  "requiredTwitterTags = [''card'', ''title'', ''description'', ''image'']"

definition missing_tags_issue :: "string \<Rightarrow> string list \<Rightarrow> string list \<Rightarrow> string list" where
  "missing_tags_issue label required present =
     (let missing = filter (\<lambda>tag. \<not> has_flag present tag) required
      in if length missing > 0 then [label @ join '', '' missing] else [])"

subsection \<open>With the sandbox output\<close>

text \<open>\<open>seoOutput.meta.find(m => m.name === key || m.hid === key)\<close>.\<close>

definition find_meta :: "string \<Rightarrow> meta_entry list \<Rightarrow> meta_entry option" where
  "find_meta key ms = find (\<lambda>m. m_name m = Some key \<or> m_hid m = Some key) ms"

text \<open>\<open>m.property && m.property.startsWith('og:')\<close> and its counterpart on \<open>m.name\<close>.\<close>

definition has_prefix :: "string option \<Rightarrow> string \<Rightarrow> bool" where
  "has_prefix v pre = (case v of None \<Rightarrow> False | Some s \<Rightarrow> s \<noteq> [] \<and> startsWith s pre)"

text \<open>The callback of \<open>ogTagsInOutput.forEach\<close> on the pair of \<open>ogTags\<close> and \<open>ogImage\<close>.
  The filter guarantees that \<open>tag.property\<close> is a string.\<close>

definition og_step :: "string list \<times> string option \<Rightarrow> meta_entry \<Rightarrow> string list \<times> string option" where
  "og_step st tag =
     (let tagName = replace_first ''og:'' [] (case m_property tag of Some p \<Rightarrow> p | None \<Rightarrow> [])
      in (set_flag tagName (fst st), if tagName = ''image'' then m_content tag else snd st))"

definition twitter_step :: "string list \<Rightarrow> meta_entry \<Rightarrow> string list" where
  "twitter_step ks tag =
     set_flag (replace_first ''twitter:'' [] (case m_name tag of Some p \<Rightarrow> p | None \<Rightarrow> [])) ks"

definition checkMetaTags_dynamic :: "meta_entry list \<Rightarrow> link_entry list option \<Rightarrow> js_error + metaInfo" where
  "checkMetaTags_dynamic ms links =
     (case (case find_meta ''title'' ms of
              None \<Rightarrow> Inr (None, [])
            | Some titleMeta \<Rightarrow>
                (case m_content titleMeta of
                   None \<Rightarrow> Inl TypeError
                 | Some c \<Rightarrow> Inr (Some c, title_length_check (length c)))) of
        Inl e \<Rightarrow> Inl e
      | Inr (t, title_issues) \<Rightarrow>
     (case (case find_meta ''description'' ms of
              None \<Rightarrow> Inr (None, [])
            | Some descMeta \<Rightarrow>
                (case m_content descMeta of
                   None \<Rightarrow> Inl TypeError
                 | Some c \<Rightarrow> Inr (Some c, description_length_check (length c)))) of
        Inl e \<Rightarrow> Inl e
      | Inr (d, description_issues) \<Rightarrow>
          (let og = foldl og_step ([], None) (filter (\<lambda>m. has_prefix (m_property m) ''og:'') ms);
               tw = foldl twitter_step [] (filter (\<lambda>m. has_prefix (m_name m) ''twitter:'') ms);
               canon = (case links of None \<Rightarrow> False
                        | Some ls \<Rightarrow> list_ex (\<lambda>l. rel l = Some ''canonical'') ls)
           in Inr \<lparr> meta_title = t, meta_description = d, ogTags = fst og, twitterTags = tw,
                    canonical = canon,
                    issues = title_issues @ description_issues
                      @ missing_tags_issue ''Missing Open Graph tags: '' requiredOgTags (fst og)
                      @ missing_tags_issue ''Missing Twitter Card tags: '' requiredTwitterTags tw
                      @ (if \<not> canon then [''Missing canonical URL''] else []),
                    ogImage = snd og \<rparr>)))"

subsection \<open>Without the sandbox output\<close>

definition ogTagNames :: "string list" where
  "ogTagNames =
     [''og:title'', ''og:description'', ''og:image'', ''og:url'', ''og:type'', ''og:site_name'',
      ''ogTitle'', ''ogDescription'', ''ogImage'', ''ogUrl'', ''ogType'', ''ogSiteName'']"

definition twitterTagNames :: "string list" where
  "twitterTagNames =
     [''twitter:card'', ''twitter:title'', ''twitter:description'', ''twitter:image'',
      ''twitter:site'', ''twitterCard'', ''twitterTitle'', ''twitterDescription'',
      ''twitterImage'']"

text \<open>The callback of \<open>ogTags.forEach\<close> and of \<open>twitterTags.forEach\<close>, for the prefix
  it removes.\<close>

definition literal_step :: "string \<Rightarrow> string \<Rightarrow> string list \<Rightarrow> string \<Rightarrow> string list" where
  "literal_step pre content ks tag =
     (let tagName = lower_capitals (replace_first pre [] tag)
      in if includes_str content tag then set_flag tagName ks else ks)"

definition checkMetaTags_static :: "string \<Rightarrow> metaInfo" where
  "checkMetaTags_static content =
     (let titleMatch = quoted_field ''title'' content;
          title_issues = (case titleMatch of
                            Some t \<Rightarrow> title_length_check (length t)
                          | None \<Rightarrow> [''Missing page title'']);
          descMatch = quoted_field ''description'' content;
          description_issues = (case descMatch of
                                  Some d \<Rightarrow> description_length_check (length d)
                                | None \<Rightarrow> [''Missing meta description''])
      in if includes_str content ''generateSEO(''
         then \<lparr> meta_title = titleMatch, meta_description = descMatch,
                ogTags = [''title'', ''description'', ''image'', ''url'', ''type'', ''site_name''],
                twitterTags = [''card'', ''title'', ''description'', ''image'', ''site''],
                canonical = True,
                issues = title_issues @ description_issues,
                ogImage = quoted_field ''image'' content \<rparr>
         else (let og = foldl (literal_step ''og:'' content) [] ogTagNames;
                   tw = foldl (literal_step ''twitter:'' content) [] twitterTagNames;
                   canon = (includes_str content ''canonical:''
                            \<or> includes_str content ''link.*rel.*canonical'')
               in \<lparr> meta_title = titleMatch, meta_description = descMatch,
                      ogTags = og, twitterTags = tw, canonical = canon,
                      issues = title_issues @ description_issues
                        @ missing_tags_issue ''Missing Open Graph tags: '' requiredOgTags og
                        @ missing_tags_issue ''Missing Twitter Card tags: '' requiredTwitterTags tw
                        @ (if canon then [] else [''Missing canonical URL'']),
                      ogImage = None \<rparr>))"

text \<open>\<open>checkMetaTags\<close>; the parameter \<open>pageName\<close> of the source is never read.\<close>

definition checkMetaTags :: "string \<Rightarrow> seo_output option \<Rightarrow> js_error + metaInfo" where
  "checkMetaTags content seoOutput =
     (case seoOutput of
        None \<Rightarrow> Inr (checkMetaTags_static content)
      | Some out \<Rightarrow>
          (case meta out of
             None \<Rightarrow> Inr (checkMetaTags_static content)
           | Some ms \<Rightarrow> checkMetaTags_dynamic ms (link out)))"

text \<open>An issue that reports a title length, respectively a description length.\<close>

definition is_title_length_issue :: "string \<Rightarrow> bool" where
  "is_title_length_issue s = (startsWith s ''Title too short'' \<or> startsWith s ''Title too long'')"

definition is_description_length_issue :: "string \<Rightarrow> bool" where
  "is_description_length_issue s =
     (startsWith s ''Meta description too short'' \<or> startsWith s ''Meta description too long'')"

section \<open>JavaScript numbers\<close>

text \<open>
  A JavaScript number is an IEEE 754 double. A finite double is a rational \<open>m * 2^e\<close>
  with \<open>|m| < 2^53\<close> and \<open>e \<ge> -1074\<close>, and every arithmetic operation returns the double
  nearest to the exact result, a tie going to the even mantissa. This is what
  \<open>to_double\<close> computes: it divides by the unit in the last place of the binade of its
  argument (the binade of the smallest normal number for anything below it), rounds the
  quotient to the nearest integer with ties to even, and scales back. The values of the
  program stay far below \<open>2^1024\<close> and every division is guarded by a test that the divisor
  is positive, so infinities and NaN are not modelled. Counts and lengths are integers far
  below \<open>2^53\<close> and are doubles as they are.
\<close>

definition pow2 :: "int \<Rightarrow> rat" where
  "pow2 e = (if 0 \<le> e then 2 ^ nat e else 1 / 2 ^ nat (- e))"

text \<open>The binade of a positive rational \<open>x\<close>: the \<open>e\<close> with \<open>2^e \<le> x < 2^(e+1)\<close>, found
  from the bit lengths of the numerator and the denominator.\<close>

definition binade :: "rat \<Rightarrow> int" where
  "binade x =
     (case quotient_of x of
        (p, q) \<Rightarrow> (let k = bitlen p - bitlen q in if pow2 k \<le> x then k else k - 1))"

definition ties_even :: "rat \<Rightarrow> int" where
  "ties_even y =
     (let f = \<lfloor>y\<rfloor>; r = y - of_int f
      in if r < 1 / 2 then f else if 1 / 2 < r then f + 1 else if even f then f else f + 1)"

definition ulp :: "rat \<Rightarrow> rat" where
  "ulp x = pow2 (max (binade x) (- 1022) - 52)"

definition to_double :: "rat \<Rightarrow> rat" where
  "to_double x =
     (if x = 0 then 0
      else if 0 < x then of_int (ties_even (x / ulp x)) * ulp x
      else - (of_int (ties_even (- x / ulp (- x))) * ulp (- x)))"

text \<open>The four operations \<open>+\<close>, \<open>-\<close>, \<open>*\<close> and \<open>/\<close> on doubles.\<close>

definition fadd :: "rat \<Rightarrow> rat \<Rightarrow> rat" where
  "fadd a b = to_double (a + b)"

definition fsub :: "rat \<Rightarrow> rat \<Rightarrow> rat" where
  "fsub a b = to_double (a - b)"

definition fmul :: "rat \<Rightarrow> rat \<Rightarrow> rat" where
  "fmul a b = to_double (a * b)"

definition fdiv :: "rat \<Rightarrow> rat \<Rightarrow> rat" where
  "fdiv a b = to_double (a / b)"

text \<open>\<open>Math.round\<close> of a double: the nearest integer, a tie going up.\<close>

definition math_round :: "rat \<Rightarrow> int" where
  "math_round x = \<lfloor>x + 1 / 2\<rfloor>"

section \<open>The document checks\<close>

text \<open>
  \<open>([\s\S]*?)\<close> followed by a literal text: the shortest text before the first
  occurrence of the literal.
\<close>

fun lazy_until_literal :: "string \<Rightarrow> string \<Rightarrow> string option" where
  "lazy_until_literal lit [] = (if lit = [] then Some [] else None)"
| "lazy_until_literal lit (c # cs) =
     (if startsWith (c # cs) lit then Some []
      else map_option ((#) c) (lazy_until_literal lit cs))"

text \<open>\<open>/<template[^>]*>([\s\S]*?)<\/template>/\<close> at one start position; the result is
  group 1.\<close>

definition template_at :: "string \<Rightarrow> string option" where
  "template_at s =
     (case after_literal ''<template'' s of
        None \<Rightarrow> None
      | Some r \<Rightarrow>
          (case dropWhile (\<lambda>c. c \<noteq> CHR ''>'') r of
             [] \<Rightarrow> None
           | g # r2 \<Rightarrow> lazy_until_literal ''</template>'' r2))"

definition template_region :: "string \<Rightarrow> string option" where
  "template_region content = first_match template_at content"

text \<open>Matching a literal under the \<open>i\<close> flag: letters are compared up to case.\<close>

fun startsWith_ci :: "string \<Rightarrow> string \<Rightarrow> bool" where
  "startsWith_ci s [] = True"
| "startsWith_ci [] (p # ps) = False"
| "startsWith_ci (c # cs) (p # ps) = (lower_char c = lower_char p \<and> startsWith_ci cs ps)"

text \<open>The rest of a tag, \<open>[^>]*>\<close>: the text up to and including the first \<open>>\<close>.\<close>

definition tag_rest :: "string \<Rightarrow> string option" where
  "tag_rest r =
     (if dropWhile (\<lambda>c. c \<noteq> CHR ''>'') r = [] then None
      else Some (takeWhile (\<lambda>c. c \<noteq> CHR ''>'') r @ ''>''))"

text \<open>\<open>/<img[^>]*>/i\<close> and its like at one start position; the result is the matched text.\<close>

definition tag_at :: "string \<Rightarrow> string \<Rightarrow> string option" where
  "tag_at opener s =
     (if startsWith_ci s opener
      then map_option (\<lambda>t. take (length opener) s @ t) (tag_rest (drop (length opener) s))
      else None)"

text \<open>\<open>/<h([1-6])/i\<close> at one start position, the result being the digit of group 1, and
  \<open>/<h([1-6])[^>]*>/i\<close>, the result being the matched text.\<close>

definition heading_digit_at :: "string \<Rightarrow> char option" where
  "heading_digit_at s =
     (case s of
        a # b # d # r \<Rightarrow>
          if a = CHR ''<'' \<and> lower_char b = CHR ''h'' \<and> d \<in> set ''123456'' then Some d else None
      | _ \<Rightarrow> None)"

definition heading_at :: "string \<Rightarrow> string option" where
  "heading_at s =
     (case heading_digit_at s of
        None \<Rightarrow> None
      | Some d \<Rightarrow> map_option (\<lambda>t. take 3 s @ t) (tag_rest (drop 3 s)))"

text \<open>
  \<open>String.prototype.match\<close> with the \<open>g\<close> flag: all matches from the left, the search
  resuming after the end of each match. The counter is the number of characters of the
  last match still to be passed over.
\<close>

fun all_matches :: "(string \<Rightarrow> string option) \<Rightarrow> nat \<Rightarrow> string \<Rightarrow> string list" where
  "all_matches m k [] = []"
| "all_matches m (Suc k) (c # cs) = all_matches m k cs"
| "all_matches m 0 (c # cs) =
     (case m (c # cs) of
        Some t \<Rightarrow> t # all_matches m (length t - 1) cs
      | None \<Rightarrow> all_matches m 0 cs)"

text \<open>\<open>parseInt\<close> of one of the digits 1 to 6.\<close>

definition digit_value :: "char \<Rightarrow> nat" where
  "digit_value d =
     (case map_of (zip ''123456'' [1, 2, 3, 4, 5, 6]) d of Some n \<Rightarrow> n | None \<Rightarrow> 0)"

text \<open>
  The object \<open>headingInfo\<close>; its property \<open>headings\<close> is the field \<open>levels\<close> and its
  property \<open>issues\<close> the field \<open>heading_issues\<close>.
\<close>

record headingInfo =
  h1Count :: nat
  levels :: "nat list"
  heading_issues :: "string list"

text \<open>The callback of \<open>headingMatches.forEach\<close> on the triple of \<open>headings\<close>,
  \<open>lastLevel\<close> and \<open>hierarchyBroken\<close>. \<open>heading.match(...)[1]\<close> throws when there is no match.\<close>

definition heading_step ::
  "js_error + (nat list \<times> nat \<times> bool) \<Rightarrow> string \<Rightarrow> js_error + (nat list \<times> nat \<times> bool)" where
  "heading_step acc heading =
     (case acc of
        Inl e \<Rightarrow> Inl e
      | Inr (hs, lastLevel, hierarchyBroken) \<Rightarrow>
          (case first_match heading_digit_at heading of
             None \<Rightarrow> Inl TypeError
           | Some d \<Rightarrow>
               (let level = digit_value d
                in Inr (hs @ [level],
                        level,
                        hierarchyBroken \<or> (lastLevel > 0 \<and> level > lastLevel + 1)))))"

definition checkHeadingStructure :: "string \<Rightarrow> js_error + headingInfo" where
  "checkHeadingStructure content =
     (case template_region content of
        None \<Rightarrow> Inr \<lparr> h1Count = 0, levels = [], heading_issues = [] \<rparr>
      | Some template \<Rightarrow>
          (let h1 = length (all_matches (tag_at ''<h1'') 0 template);
               h1_issues =
                 (if h1 = 0 then [''No H1 tag found'']
                  else if h1 > 1
                  then [''Multiple H1 tags found ('' @ string_of_nat h1 @ ''), should have only 1'']
                  else [])
           in case foldl heading_step (Inr ([], 0, False)) (all_matches heading_at 0 template) of
                Inl e \<Rightarrow> Inl e
              | Inr (hs, lastLevel, hierarchyBroken) \<Rightarrow>
                  Inr \<lparr> h1Count = h1, levels = hs,
                        heading_issues = h1_issues
                          @ (if hierarchyBroken then [''Heading hierarchy broken (skipped levels)'']
                             else []) \<rparr>))"


text \<open>The object \<open>imageInfo\<close>; its property \<open>issues\<close> is the field \<open>image_issues\<close>.\<close>

record imageInfo =
  totalImages :: nat
  imagesWithAlt :: nat
  imagesWithoutAlt :: nat
  image_issues :: "string list"

definition has_alt :: "string \<Rightarrow> bool" where
  "has_alt img =
     (includes_str img ''alt='' \<and> \<not> includes_str img (''alt='' @ [CHR 0x22, CHR 0x22])
      \<and> \<not> includes_str img (''alt='' @ [CHR 0x27, CHR 0x27]))"

definition is_lazy :: "string \<Rightarrow> bool" where
  "is_lazy img =
     (includes_str img (''loading='' @ [CHR 0x22] @ ''lazy'' @ [CHR 0x22])
      \<or> includes_str img ''lazy='')"

definition checkImages :: "string \<Rightarrow> imageInfo" where
  "checkImages content =
     (case template_region content of
        None \<Rightarrow> \<lparr> totalImages = 0, imagesWithAlt = 0, imagesWithoutAlt = 0, image_issues = [] \<rparr>
      | Some template \<Rightarrow>
          (let allImages = all_matches (tag_at ''<img'') 0 template
                           @ all_matches (tag_at ''<NuxtImg'') 0 template;
               total = length allImages;
               withAlt = length (filter has_alt allImages);
               withoutAlt = length (filter (\<lambda>img. \<not> has_alt img) allImages);
               lazyLoadedImages = length (filter is_lazy allImages)
           in \<lparr> totalImages = total, imagesWithAlt = withAlt, imagesWithoutAlt = withoutAlt,
                image_issues =
                  (if withoutAlt > 0
                   then [string_of_nat withoutAlt @ '' images missing alt text (''
                         @ string_of_nat (nat (math_round (fmul (fdiv (of_nat withAlt) (of_nat total)) 100)))
                         @ ''% coverage)'']
                   else [])
                  @ (if total > 2 \<and> int lazyLoadedImages < int total - 2
                     then [''Consider implementing lazy loading for below-the-fold images'']
                     else []) \<rparr>))"

section \<open>The per-document record\<close>

text \<open>
  The object returned by \<open>checkPageSEO\<close>. Its properties \<open>metaTags\<close>, \<open>headings\<close> and
  \<open>images\<close> are the fields \<open>page_metaTags\<close>, \<open>page_headings\<close> and \<open>page_images\<close>.
\<close>

record pageResult =
  path :: string
  pageName :: string
  hasGenerateSEO :: bool
  hasUseSeoMeta :: bool
  hasUseHead :: bool
  schemas :: "string list"
  schemaDetails :: "params option"
  hasSEO :: bool
  page_metaTags :: metaInfo
  page_headings :: headingInfo
  page_images :: imageInfo

definition ignorePaths :: "string list" where
  "ignorePaths = [''purchase/order'', ''purchase/orderLead'', ''purchase'', ''admin'', ''api'']"

text \<open>\<open>relativePath.replace(/\.vue$/, '')\<close>.\<close>

definition strip_vue :: "string \<Rightarrow> string" where
  "strip_vue p =
     (if startsWith (rev p) (rev ''.vue'') then take (length p - length ''.vue'') p else p)"

text \<open>The schema list read from the \<open>@graph\<close> of the sandbox output.\<close>

definition graph_schemas :: "graph_item list \<Rightarrow> string list" where
  "graph_schemas items =
     map (\<lambda>item.
            (case atype item of
               None \<Rightarrow> []
             | Some type \<Rightarrow>
                 (case mainEntity item of
                    Some n \<Rightarrow>
                      if type = ''FAQPage'' then type @ '' ('' @ string_of_nat n @ '' FAQs)''
                      else type
                  | None \<Rightarrow> type)))
         (filter (\<lambda>item. case atype item of None \<Rightarrow> False | Some type \<Rightarrow> type \<noteq> []) items)"

text \<open>The legacy detection, run when the schema list is still empty.\<close>

definition legacy_schemas :: "string \<Rightarrow> string list" where
  "legacy_schemas content =
     (if includes_str content ''contactPage:'' then [''ContactPage''] else [])
     @ (if includes_str content ''grant:'' then [''Grant''] else [])
     @ (if includes_str content ''products:'' then [''Product''] else [])
     @ (if includes_str content ''services:'' then [''Service''] else [])
     @ (if includes_str content ''faqs:'' then [''FAQPage''] else [])
     @ (if includes_str content ''breadcrumb:'' \<or> includes_str content ''breadcrumbs:''
        then [''BreadcrumbList''] else [])"

text \<open>
  \<open>checkPageSEO\<close>, given the evaluator, the path of the file relative to the pages
  directory and the text of the file. The result is the record, or \<open>None\<close> for \<open>null\<close>
  (an ignored path, or an exception caught by the outer \<open>catch\<close>), together with the
  list of the parameter sets on which the evaluator was called.
\<close>

definition checkPageSEO ::
  "(params \<Rightarrow> seo_output option) \<Rightarrow> string \<Rightarrow> string \<Rightarrow> pageResult option \<times> params list" where
  "checkPageSEO evaluateGenerateSEO relativePath content =
     (if list_ex (\<lambda>ignorePath. includes_str relativePath ignorePath) ignorePaths then (None, [])
      else
        (let has_generateSEO = includes_str content ''generateSEO('';
             has_useSeoMeta = includes_str content ''useSeoMeta('';
             has_useHead = includes_str content ''useHead('';
             extractedParams = (if has_generateSEO then extractGenerateSEOParams content else None);
             evaluated = (case extractedParams of None \<Rightarrow> [] | Some p \<Rightarrow> [p]);
             seoOutput = (case extractedParams of None \<Rightarrow> None | Some p \<Rightarrow> evaluateGenerateSEO p);
             schemas1 =
               (case extractedParams of
                  None \<Rightarrow> []
                | Some p \<Rightarrow>
                    (case seoOutput of
                       None \<Rightarrow> mapParamsToSchemas extractedParams
                     | Some out \<Rightarrow>
                         (case script out of
                            NoScript \<Rightarrow> mapParamsToSchemas extractedParams
                          | Unparsable \<Rightarrow> mapParamsToSchemas extractedParams
                          | ParsedNoGraph \<Rightarrow> []
                          | ParsedGraph items \<Rightarrow> graph_schemas items)));
             schemas2 = (if has_generateSEO \<and> length schemas1 = 0 then legacy_schemas content
                         else schemas1)
         in case checkMetaTags content seoOutput of
              Inl e \<Rightarrow> (None, evaluated)
            | Inr metaTagInfo \<Rightarrow>
                (case checkHeadingStructure content of
                   Inl e \<Rightarrow> (None, evaluated)
                 | Inr headingInfo \<Rightarrow>
                     (Some \<lparr> path = relativePath, pageName = strip_vue relativePath,
                             hasGenerateSEO = has_generateSEO, hasUseSeoMeta = has_useSeoMeta,
                             hasUseHead = has_useHead, schemas = schemas2,
                             schemaDetails = extractedParams,
                             hasSEO = ((has_generateSEO \<or> has_useSeoMeta) \<and> has_useHead),
                             page_metaTags = metaTagInfo, page_headings = headingInfo,
                             page_images = checkImages content \<rparr>,
                      evaluated))))"

section \<open>The aggregate results\<close>

text \<open>
  One entry of \<open>results.categoryScores\<close>; its property \<open>issues\<close> is the field
  \<open>category_issues\<close>.
\<close>

record category =
  score :: rat
  maxScore :: rat
  category_issues :: "string list"

record categoryScores =
  metaTags :: category
  technicalSEO :: category
  structuredData :: category
  imagesMedia :: category
  socialSharing :: category

record robots =
  configured :: bool

text \<open>
  The part of the object \<open>results\<close> that the aggregation and the scoring read or write.
  \<open>ogImageUsage\<close> is an object used as a dictionary from image to page names: the map
  holds its own properties. The two properties of \<open>imageStats\<close> that the scoring assigns
  are the fields \<open>stats_totalImages\<close> and \<open>stats_imagesWithAlt\<close>.
\<close>

record results =
  pagesWithSEO :: "pageResult list"
  pagesWithoutSEO :: "pageResult list"
  missingFromSitemap :: "string list"
  robotsConfig :: "robots option"
  stats_totalImages :: int
  stats_imagesWithAlt :: int
  ogImageUsage :: "string \<rightharpoonup> string list"
  pagesWithoutOGImage :: "string list"
  categoryScores :: categoryScores

definition initial_category :: category where
  "initial_category = \<lparr> score = 0, maxScore = 20, category_issues = [] \<rparr>"

definition initial_categoryScores :: categoryScores where
  "initial_categoryScores =
     \<lparr> metaTags = initial_category, technicalSEO = initial_category,
       structuredData = initial_category, imagesMedia = initial_category,
       socialSharing = initial_category \<rparr>"

definition initial_results :: results where
  "initial_results =
     \<lparr> pagesWithSEO = [], pagesWithoutSEO = [], missingFromSitemap = [], robotsConfig = None,
       stats_totalImages = 0, stats_imagesWithAlt = 0, ogImageUsage = Map.empty,
       pagesWithoutOGImage = [], categoryScores = initial_categoryScores \<rparr>"

section \<open>The aggregator\<close>

text \<open>\<open>result.schemaDetails && result.schemaDetails.image\<close>: the image, when the
  parameter set exists and its image is a non-empty string.\<close>

definition image_reference :: "pageResult \<Rightarrow> string option" where
  "image_reference r =
     (case schemaDetails r of
        None \<Rightarrow> None
      | Some p \<Rightarrow> (case image p of Some (c # cs) \<Rightarrow> Some (c # cs) | _ \<Rightarrow> None))"

text \<open>
  The callback of \<open>pageResults.forEach\<close> in \<open>main\<close>. The read
  \<open>results.ogImageUsage[image]\<close> of a key the object does not own finds what the object
  inherits from \<open>Object.prototype\<close>: for such a key no list is created, and the call of
  \<open>push\<close> on the inherited value throws.
\<close>

definition aggregate_step :: "results \<Rightarrow> pageResult option \<Rightarrow> js_error + results" where
  "aggregate_step res result =
     (case result of
        None \<Rightarrow> Inr res
      | Some r \<Rightarrow>
          if hasSEO r
          then (let res1 = res \<lparr> pagesWithSEO := pagesWithSEO res @ [r] \<rparr>
                in case image_reference r of
                     Some img \<Rightarrow>
                       (case ogImageUsage res1 img of
                          Some names \<Rightarrow>
                            Inr (res1 \<lparr> ogImageUsage := (ogImageUsage res1)(img \<mapsto> names @ [pageName r]) \<rparr>)
                        | None \<Rightarrow>
                            if img \<in> set object_prototype_keys then Inl TypeError
                            else Inr (res1 \<lparr> ogImageUsage := (ogImageUsage res1)(img \<mapsto> [pageName r]) \<rparr>))
                   | None \<Rightarrow>
                       if hasGenerateSEO r
                       then Inr (res1 \<lparr> pagesWithoutOGImage := pagesWithoutOGImage res1 @ [pageName r] \<rparr>)
                       else Inr res1)
          else Inr (res \<lparr> pagesWithoutSEO := pagesWithoutSEO res @ [r] \<rparr>))"

fun aggregate :: "results \<Rightarrow> pageResult option list \<Rightarrow> js_error + results" where
  "aggregate res [] = Inr res"
| "aggregate res (x # xs) =
     (case aggregate_step res x of Inl e \<Rightarrow> Inl e | Inr res' \<Rightarrow> aggregate res' xs)"

section \<open>The scoring engine\<close>

text \<open>\<open>issues.map(issue => `${page.pageName}: ${issue}`)\<close>.\<close>

definition attributed :: "pageResult \<Rightarrow> string list \<Rightarrow> string list" where
  "attributed page iss = map (\<lambda>issue. pageName page @ '': '' @ issue) iss"

text \<open>The callbacks of the loops of \<open>calculateCategoryScores\<close>, each on the pair of the
  running score and the issue list of its category.\<close>

definition meta_step :: "rat \<times> string list \<Rightarrow> pageResult \<Rightarrow> rat \<times> string list" where
  "meta_step acc page =
     (if length (issues (page_metaTags page)) > 0
      then (fsub (fst acc) (fmul (of_nat (length (issues (page_metaTags page)))) (1 / 2)),
            snd acc @ attributed page (issues (page_metaTags page)))
      else acc)"

definition uncovered_step :: "rat \<times> string list \<Rightarrow> pageResult \<Rightarrow> rat \<times> string list" where
  "uncovered_step acc page =
     (fsub (fst acc) 2, snd acc @ [pageName page @ '': No SEO implementation''])"

definition heading_score_step :: "rat \<times> string list \<Rightarrow> pageResult \<Rightarrow> rat \<times> string list" where
  "heading_score_step acc page =
     (if length (heading_issues (page_headings page)) > 0
      then (fsub (fst acc) (fmul (of_nat (length (heading_issues (page_headings page)))) (1 / 2)),
            snd acc @ attributed page (heading_issues (page_headings page)))
      else acc)"

text \<open>The image loop, on the triple of \<open>totalImages\<close>, \<open>imagesWithoutAlt\<close> and the
  issue list.\<close>

definition image_step :: "int \<times> int \<times> string list \<Rightarrow> pageResult \<Rightarrow> int \<times> int \<times> string list" where
  "image_step acc page =
     (case acc of
        (tot, withoutAlt, iss) \<Rightarrow>
          (tot + int (totalImages (page_images page)),
           withoutAlt + int (imagesWithoutAlt (page_images page)),
           if length (image_issues (page_images page)) > 0
           then iss @ attributed page (image_issues (page_images page))
           else iss))"

text \<open>The social loop, on \<open>socialScore\<close>, \<open>pagesWithOG\<close>, \<open>pagesWithTwitter\<close> and the
  issue list.\<close>

definition social_step ::
  "rat \<times> nat \<times> nat \<times> string list \<Rightarrow> pageResult \<Rightarrow> rat \<times> nat \<times> nat \<times> string list" where
  "social_step acc page =
     (case acc of
        (socialScore, pagesWithOG, pagesWithTwitter, iss) \<Rightarrow>
          (let ogIssues = filter (\<lambda>i. includes_str i ''Open Graph'') (issues (page_metaTags page));
               twitterIssues = filter (\<lambda>i. includes_str i ''Twitter'') (issues (page_metaTags page));
               flagged = (length ogIssues > 0 \<or> length twitterIssues > 0)
           in (if flagged then fsub socialScore 1 else socialScore,
               if length (ogTags (page_metaTags page)) \<ge> 4 then pagesWithOG + 1 else pagesWithOG,
               if length (twitterTags (page_metaTags page)) \<ge> 4 then pagesWithTwitter + 1
               else pagesWithTwitter,
               if flagged
               then iss @ [pageName page @ '': '' @ join '', '' (ogIssues @ twitterIssues)]
               else iss)))"

definition is_rich_schema :: "string \<Rightarrow> bool" where
  "is_rich_schema s =
     (includes_str s ''Product'' \<or> includes_str s ''FAQ'' \<or> includes_str s ''LocalBusiness'')"

definition calculateCategoryScores :: "results \<Rightarrow> results" where
  "calculateCategoryScores res =
     (let totalPages = length (pagesWithSEO res) + length (pagesWithoutSEO res) in
      if totalPages = 0 then res
      else
        (let cs = categoryScores res;
             \<comment> \<open>Meta Tags Score\<close>
             meta1 = foldl meta_step (20, category_issues (metaTags cs)) (pagesWithSEO res);
             meta2 = foldl uncovered_step meta1 (pagesWithoutSEO res);
             \<comment> \<open>Technical SEO Score\<close>
             pagesWithoutCanonical =
               length (filter (\<lambda>page. \<not> canonical (page_metaTags page)) (pagesWithSEO res));
             tech1 = foldl heading_score_step
                       (fsub 20 (fmul (of_nat pagesWithoutCanonical) 1),
                        category_issues (technicalSEO cs))
                       (pagesWithSEO res);
             tech2 = (if (case robotsConfig res of None \<Rightarrow> True | Some rc \<Rightarrow> \<not> configured rc)
                      then (fsub (fst tech1) 3, snd tech1 @ [''No robots configuration''])
                      else tech1);
             tech3 = (if length (missingFromSitemap res) > 0
                      then (fsub (fst tech2)
                              (min 3 (fmul (of_nat (length (missingFromSitemap res))) (1 / 2))),
                            snd tech2 @ [string_of_nat (length (missingFromSitemap res))
                                         @ '' pages missing from sitemap''])
                      else tech2);
             \<comment> \<open>Structured Data Score\<close>
             pagesWithSchemas =
               length (filter (\<lambda>page. length (schemas page) > 0) (pagesWithSEO res));
             schemaPercentage =
               (if totalPages > 0 then fdiv (of_nat pagesWithSchemas) (of_nat totalPages) else 0);
             schemaScore1 = of_int (math_round (fmul schemaPercentage 20));
             hasRichSchemas = list_ex (\<lambda>page. list_ex is_rich_schema (schemas page)) (pagesWithSEO res);
             schemaScore2 = (if hasRichSchemas then min 20 (fadd schemaScore1 2) else schemaScore1);
             \<comment> \<open>Images and Media Score\<close>
             img = foldl image_step (0, 0, category_issues (imagesMedia cs)) (pagesWithSEO res);
             total_images = fst img;
             images_without_alt = fst (snd img);
             imageScore =
               (if total_images > 0
                then of_int (math_round
                       (fmul (fdiv (of_int (total_images - images_without_alt))
                                   (of_int total_images)) 20))
                else 20);
             \<comment> \<open>Social Sharing Score\<close>
             soc = foldl social_step (20, 0, 0, category_issues (socialSharing cs)) (pagesWithSEO res);
             pagesWithOG = fst (snd soc);
             pagesWithTwitter = fst (snd (snd soc));
             socialScore =
               (if totalPages > 0
                then of_int (math_round
                       (fmul (fdiv (fadd (fdiv (of_nat pagesWithOG) (of_nat totalPages))
                                         (fdiv (of_nat pagesWithTwitter) (of_nat totalPages)))
                                   2) 20))
                else fst soc)
         in res \<lparr> categoryScores :=
                    \<lparr> metaTags = (metaTags cs) \<lparr> score := max 0 (fst meta2),
                                                  category_issues := snd meta2 \<rparr>,
                      technicalSEO = (technicalSEO cs) \<lparr> score := max 0 (fst tech3),
                                                          category_issues := snd tech3 \<rparr>,
                      structuredData = (structuredData cs) \<lparr> score := schemaScore2 \<rparr>,
                      imagesMedia = (imagesMedia cs) \<lparr> score := max 0 imageScore,
                                                        category_issues := snd (snd img) \<rparr>,
                      socialSharing = (socialSharing cs) \<lparr> score := max 0 socialScore,
                                                            category_issues := snd (snd (snd soc)) \<rparr> \<rparr>,
                  stats_totalImages := total_images,
                  stats_imagesWithAlt := total_images - images_without_alt \<rparr>))"

section \<open>Notions used in the statements\<close>

text \<open>An evaluator for a project in which no sandbox output is available.\<close>

definition no_sandbox :: "params \<Rightarrow> seo_output option" where
  "no_sandbox p = None"

text \<open>The records among the results of \<open>checkPageSEO\<close> (the results that are not \<open>null\<close>),
  and whether a result is a record with coverage.\<close>

fun page_records :: "pageResult option list \<Rightarrow> pageResult list" where
  "page_records [] = []"
| "page_records (None # xs) = page_records xs"
| "page_records (Some r # xs) = r # page_records xs"

definition covered :: "pageResult option \<Rightarrow> bool" where
  "covered x = (case x of None \<Rightarrow> False | Some r \<Rightarrow> hasSEO r)"

text \<open>The page names listed under an image in the image usage index.\<close>

definition entry :: "(string \<rightharpoonup> string list) \<Rightarrow> string \<Rightarrow> string list" where
  "entry m img = (case m img of None \<Rightarrow> [] | Some names \<Rightarrow> names)"

text \<open>A record with coverage that carries the image reference \<open>img\<close>; a record with
  coverage that uses \<open>generateSEO\<close> and carries no image reference.\<close>

definition indexed_under :: "string \<Rightarrow> pageResult \<Rightarrow> bool" where
  "indexed_under img r = (hasSEO r \<and> image_reference r = Some img)"

definition missing_image :: "pageResult \<Rightarrow> bool" where
  "missing_image r = (hasSEO r \<and> image_reference r = None \<and> hasGenerateSEO r)"

text \<open>No record with coverage carries an image reference that is the name of a property
  inherited from \<open>Object.prototype\<close>.\<close>

definition safe_images :: "pageResult list \<Rightarrow> bool" where
  "safe_images rs =
     list_all (\<lambda>r. case image_reference r of
                      None \<Rightarrow> True
                    | Some img \<Rightarrow> (if hasSEO r then img \<notin> set object_prototype_keys else True)) rs"

text \<open>The finite doubles, as rationals.\<close>

definition is_double :: "rat \<Rightarrow> bool" where
  "is_double d = (\<exists>m e. d = of_int m * pow2 e \<and> \<bar>m\<bar> < 2 ^ 53 \<and> - 1074 \<le> e)"

text \<open>The number of analyzed documents, and the two thresholds of the social loop.\<close>

definition total_pages :: "results \<Rightarrow> nat" where
  "total_pages res = length (pagesWithSEO res) + length (pagesWithoutSEO res)"

definition has_og :: "pageResult \<Rightarrow> bool" where
  "has_og page = (length (ogTags (page_metaTags page)) \<ge> 4)"

definition has_twitter :: "pageResult \<Rightarrow> bool" where
  "has_twitter page = (length (twitterTags (page_metaTags page)) \<ge> 4)"

text \<open>The ratio-based value \<open>Math.round(((og / n + tw / n) / 2) * 20)\<close>, each operation
  on doubles.\<close>

definition ratio_score :: "nat \<Rightarrow> nat \<Rightarrow> nat \<Rightarrow> rat" where
  "ratio_score og tw n =
     of_int (math_round
       (fmul (fdiv (fadd (fdiv (of_nat og) (of_nat n)) (fdiv (of_nat tw) (of_nat n))) 2) 20))"

text \<open>
  The ratio-based value as the specification words it, the two fractions being taken
  over all the documents, with or without coverage.
\<close>

definition all_documents_social_score :: "results \<Rightarrow> rat" where
  "all_documents_social_score res =
     max 0 (ratio_score (length (filter has_og (pagesWithSEO res @ pagesWithoutSEO res)))
                        (length (filter has_twitter (pagesWithSEO res @ pagesWithoutSEO res)))
                        (total_pages res))"

text \<open>A page for which the social loop subtracts a point, and the line it attributes.\<close>

definition social_flagged :: "pageResult \<Rightarrow> bool" where
  "social_flagged page =
     (filter (\<lambda>i. includes_str i ''Open Graph'') (issues (page_metaTags page)) \<noteq> []
      \<or> filter (\<lambda>i. includes_str i ''Twitter'') (issues (page_metaTags page)) \<noteq> [])"

definition social_line :: "pageResult \<Rightarrow> string" where
  "social_line page =
     pageName page @ '': ''
     @ join '', '' (filter (\<lambda>i. includes_str i ''Open Graph'') (issues (page_metaTags page))
                   @ filter (\<lambda>i. includes_str i ''Twitter'') (issues (page_metaTags page)))"

text \<open>A record with another issue list in its metadata.\<close>

definition with_issues :: "(pageResult \<Rightarrow> string list) \<Rightarrow> pageResult \<Rightarrow> pageResult" where
  "with_issues f page = page \<lparr> page_metaTags := (page_metaTags page) \<lparr> issues := f page \<rparr> \<rparr>"

text \<open>
  The value that \<open>checkMetaTags\<close> reads for a key from its input: with the \<open>meta\<close> array
  of a sandbox output, the content of the first entry named by the key; without it, group
  1 of the first match of the pattern for the key in the text of the document.
\<close>

definition read_field :: "string \<Rightarrow> string \<Rightarrow> seo_output option \<Rightarrow> string option" where
  "read_field key content seoOutput =
     (case (case seoOutput of None \<Rightarrow> None | Some out \<Rightarrow> meta out) of
        None \<Rightarrow> quoted_field key content
      | Some ms \<Rightarrow> (case find_meta key ms of None \<Rightarrow> None | Some e \<Rightarrow> m_content e))"

text \<open>The entry that \<open>checkMetaTags\<close> reads for a key has no content, so that reading
  the length of the content throws.\<close>

definition entry_without_content :: "string \<Rightarrow> seo_output option \<Rightarrow> bool" where
  "entry_without_content key seoOutput =
     (case (case seoOutput of None \<Rightarrow> None | Some out \<Rightarrow> meta out) of
        None \<Rightarrow> False
      | Some ms \<Rightarrow> (case find_meta key ms of None \<Rightarrow> False | Some e \<Rightarrow> m_content e = None))"

text \<open>
  A text declares the value \<open>v\<close> for a key: its first occurrence of the key and a colon is
  followed, after optional white space, by \<open>v\<close> between two quote characters, and \<open>v\<close> has
  no quote character of any of the three kinds.
\<close>

definition first_occurrence :: "string \<Rightarrow> string \<Rightarrow> nat option" where
  "first_occurrence lit s = find (\<lambda>k. startsWith (drop k s) lit) [0..<Suc (length s)]"

definition declares :: "string \<Rightarrow> string \<Rightarrow> string \<Rightarrow> bool" where
  "declares key v content =
     (case first_occurrence (key @ '':'') content of
        None \<Rightarrow> False
      | Some k \<Rightarrow>
          (case dropWhile is_space (drop (k + length key + 1) content) of
             [] \<Rightarrow> False
           | q # r \<Rightarrow>
               is_quote q \<and> list_all (\<lambda>c. \<not> is_quote c) v \<and> take (length v) r = v
               \<and> (case drop (length v) r of [] \<Rightarrow> False | q' # _ \<Rightarrow> is_quote q')))"

text \<open>
  The input presents the value \<open>v\<close> for a key: the first entry of the \<open>meta\<close> array named
  by the key has the content \<open>v\<close>, or, without the array, the text declares \<open>v\<close>.
\<close>

definition presents :: "string \<Rightarrow> string \<Rightarrow> string \<Rightarrow> seo_output option \<Rightarrow> bool" where
  "presents key v content seoOutput =
     (case (case seoOutput of None \<Rightarrow> None | Some out \<Rightarrow> meta out) of
        None \<Rightarrow> declares key v content
      | Some ms \<Rightarrow> (case find_meta key ms of None \<Rightarrow> False | Some e \<Rightarrow> m_content e = Some v))"

section \<open>Example documents\<close>

text \<open>A call with three FAQ objects, one news entry that is not an object, and an
  empty product list.\<close>

definition collections_doc :: string where
  "collections_doc = ''generateSEO({ faqs: [{q}, {r}, {s}], news: [ latest ], products: [  ] })''"

definition collections_args :: string where
  "collections_args = '' faqs: [{q}, {r}, {s}], news: [ latest ], products: [  ] ''"

text \<open>The document \<open>generateSEO({ products: [{a}, {b}, {c}, {d}, {e}] })\<close>: its extracted
  parameter set has a products count of 5 and no other collection field.\<close>

definition products_doc :: string where
  "products_doc = ''generateSEO({ products: [{a}, {b}, {c}, {d}, {e}] })''"

definition products_params :: params where
  "products_params =
     \<lparr> title = None, description = None, image = None, faqs = None, branches = None,
       services = None, products = Some 5, news = None, grant = False, contactPage = False,
       awards = False, breadcrumb = False \<rparr>"


text \<open>A document without a template region, with a heading and an image in its text.\<close>

definition plain_doc :: string where
  "plain_doc = ''<div><h3>x</h3><img src=a></div><script>useHead({})</script>''"

text \<open>A document that calls \<open>generateSEO\<close> on a variable: the text \<open>generateSEO(\<close> is
  there, the call pattern of the extractor is not.\<close>

definition variable_call_doc :: string where
  "variable_call_doc = ''useHead(generateSEO(seoParams))''"

text \<open>A document with coverage through \<open>useSeoMeta\<close> and \<open>useHead\<close>, and its record.\<close>

definition meta_only_doc :: string where
  "meta_only_doc = ''useSeoMeta({ title: `Hi` }); useHead({})''"

definition meta_only_record :: pageResult where
  "meta_only_record =
     \<lparr> path = ''about.vue'', pageName = ''about'', hasGenerateSEO = False, hasUseSeoMeta = True,
       hasUseHead = True, schemas = [], schemaDetails = None, hasSEO = True,
       page_metaTags =
         \<lparr> meta_title = Some ''Hi'', meta_description = None, ogTags = [], twitterTags = [],
           canonical = False,
           issues = [''Title too short (2 chars, recommended: 50-60)'', ''Missing meta description'',
                     ''Missing Open Graph tags: title, description, image, url'',
                     ''Missing Twitter Card tags: card, title, description, image'',
                     ''Missing canonical URL''],
           ogImage = None \<rparr>,
       page_headings = \<lparr> h1Count = 0, levels = [], heading_issues = [] \<rparr>,
       page_images = \<lparr> totalImages = 0, imagesWithAlt = 0, imagesWithoutAlt = 0,
                       image_issues = [] \<rparr> \<rparr>"

text \<open>Two documents that use \<open>generateSEO\<close>, one with an image parameter and one without,
  and their records.\<close>

definition home_doc :: string where
  "home_doc = ''useHead(generateSEO({ title: `Home`, image: `/og/home.png` }))''"

definition bare_doc :: string where
  "bare_doc = ''useHead(generateSEO({ title: `Bare` }))''"

definition generated_metaTags :: "string \<Rightarrow> string option \<Rightarrow> metaInfo" where
  "generated_metaTags t img =
     \<lparr> meta_title = Some t, meta_description = None,
       ogTags = [''title'', ''description'', ''image'', ''url'', ''type'', ''site_name''],
       twitterTags = [''card'', ''title'', ''description'', ''image'', ''site''],
       canonical = True,
       issues = [''Title too short (4 chars, recommended: 50-60)'', ''Missing meta description''],
       ogImage = img \<rparr>"

definition home_params :: params where
  "home_params =
     \<lparr> title = Some ''Home'', description = None, image = Some ''/og/home.png'', faqs = None,
       branches = None, services = None, products = None, news = None, grant = False,
       contactPage = False, awards = False, breadcrumb = False \<rparr>"

definition bare_params :: params where
  "bare_params =
     \<lparr> title = Some ''Bare'', description = None, image = None, faqs = None,
       branches = None, services = None, products = None, news = None, grant = False,
       contactPage = False, awards = False, breadcrumb = False \<rparr>"

definition home_record :: pageResult where
  "home_record =
     \<lparr> path = ''index.vue'', pageName = ''index'', hasGenerateSEO = True, hasUseSeoMeta = False,
       hasUseHead = True, schemas = [''WebPage'', ''Organization''],
       schemaDetails = Some home_params, hasSEO = True,
       page_metaTags = generated_metaTags ''Home'' (Some ''/og/home.png''),
       page_headings = \<lparr> h1Count = 0, levels = [], heading_issues = [] \<rparr>,
       page_images = \<lparr> totalImages = 0, imagesWithAlt = 0, imagesWithoutAlt = 0,
                       image_issues = [] \<rparr> \<rparr>"

definition bare_record :: pageResult where
  "bare_record =
     \<lparr> path = ''bare.vue'', pageName = ''bare'', hasGenerateSEO = True, hasUseSeoMeta = False,
       hasUseHead = True, schemas = [''WebPage'', ''Organization''],
       schemaDetails = Some bare_params, hasSEO = True,
       page_metaTags = generated_metaTags ''Bare'' None,
       page_headings = \<lparr> h1Count = 0, levels = [], heading_issues = [] \<rparr>,
       page_images = \<lparr> totalImages = 0, imagesWithAlt = 0, imagesWithoutAlt = 0,
                       image_issues = [] \<rparr> \<rparr>"

text \<open>A document without any of the three calls, and its record.\<close>

definition uncovered_doc :: string where
  "uncovered_doc = ''<script>const title = 1</script>''"

definition uncovered_record :: pageResult where
  "uncovered_record =
     \<lparr> path = ''legal.vue'', pageName = ''legal'', hasGenerateSEO = False, hasUseSeoMeta = False,
       hasUseHead = False, schemas = [], schemaDetails = None, hasSEO = False,
       page_metaTags =
         \<lparr> meta_title = None, meta_description = None, ogTags = [], twitterTags = [],
           canonical = False,
           issues = [''Missing page title'', ''Missing meta description'',
                     ''Missing Open Graph tags: title, description, image, url'',
                     ''Missing Twitter Card tags: card, title, description, image'',
                     ''Missing canonical URL''],
           ogImage = None \<rparr>,
       page_headings = \<lparr> h1Count = 0, levels = [], heading_issues = [] \<rparr>,
       page_images = \<lparr> totalImages = 0, imagesWithAlt = 0, imagesWithoutAlt = 0,
                       image_issues = [] \<rparr> \<rparr>"


text \<open>A document without coverage that declares four open-graph and four card-service
  tags outside \<open>useHead\<close>, its record, and the results of a run on this document alone.\<close>

definition social_only_doc :: string where
  "social_only_doc =
     ''definePageMeta({ head: { meta: [{ property: `og:title` }, { property: `og:description` }, ''
     @ ''{ property: `og:image` }, { property: `og:url` }, { name: `twitter:card` }, ''
     @ ''{ name: `twitter:title` }, { name: `twitter:description` }, { name: `twitter:image` }] } })''"

definition social_only_record :: pageResult where
  "social_only_record =
     \<lparr> path = ''promo.vue'', pageName = ''promo'', hasGenerateSEO = False, hasUseSeoMeta = False,
       hasUseHead = False, schemas = [], schemaDetails = None, hasSEO = False,
       page_metaTags =
         \<lparr> meta_title = None, meta_description = None,
           ogTags = [''title'', ''description'', ''image'', ''url''],
           twitterTags = [''card'', ''title'', ''description'', ''image''],
           canonical = False,
           issues = [''Missing page title'', ''Missing meta description'', ''Missing canonical URL''],
           ogImage = None \<rparr>,
       page_headings = \<lparr> h1Count = 0, levels = [], heading_issues = [] \<rparr>,
       page_images = \<lparr> totalImages = 0, imagesWithAlt = 0, imagesWithoutAlt = 0,
                       image_issues = [] \<rparr> \<rparr>"

definition social_only_results :: results where
  "social_only_results = initial_results \<lparr> pagesWithoutSEO := [social_only_record] \<rparr>"

text \<open>The results of a run on three documents, two with coverage.\<close>

definition example_results :: results where
  "example_results =
     initial_results \<lparr> pagesWithSEO := [home_record, meta_only_record],
                       pagesWithoutSEO := [uncovered_record] \<rparr>"


text \<open>A title of 38 characters and a description of 218, a document that passes both to
  \<open>generateSEO\<close>, and a sandbox output that carries both.\<close>

definition scenario_title :: string where
  "scenario_title = ''Handmade ceramic mugs and bowls - Kiln''"

definition scenario_description :: string where
  "scenario_description =
     ''Browse our full range of handmade ceramic mugs, bowls and plates, each one thrown, glazed and fired in our sma''
     @ ''ll studio. Free delivery on orders over fifty pounds, gift wrapping on request, and a 30-day returns policy.''"

definition scenario_doc :: string where
  "scenario_doc =
     ''useHead(generateSEO({ title: '' @ [CHR 0x27] @ scenario_title @ [CHR 0x27]
     @ '', description: '' @ [CHR 0x27] @ scenario_description @ [CHR 0x27] @ '' }))''"

definition scenario_output :: seo_output where
  "scenario_output =
     \<lparr> meta = Some [\<lparr> m_name = Some ''description'', m_hid = None, m_property = None,
                       m_content = Some scenario_description \<rparr>,
                     \<lparr> m_name = None, m_hid = Some ''title'', m_property = None,
                       m_content = Some scenario_title \<rparr>],
       link = None, script = NoScript \<rparr>"

definition scenario_dynamic_record :: metaInfo where
  "scenario_dynamic_record =
     \<lparr> meta_title = Some scenario_title, meta_description = Some scenario_description,
       ogTags = [], twitterTags = [], canonical = False,
       issues = [''Meta description too long (218 chars, recommended: 120-160)'',
                 ''Missing Open Graph tags: title, description, image, url'',
                 ''Missing Twitter Card tags: card, title, description, image'',
                 ''Missing canonical URL''],
       ogImage = None \<rparr>"

text \<open>A sandbox output with the four required open-graph tags, the four required
  card-service tags and a canonical link, and with neither a title nor a description
  entry.\<close>

definition property_entry :: "string \<Rightarrow> meta_entry" where
  "property_entry p = \<lparr> m_name = None, m_hid = None, m_property = Some p, m_content = Some ''x'' \<rparr>"

definition name_entry :: "string \<Rightarrow> meta_entry" where
  "name_entry n = \<lparr> m_name = Some n, m_hid = None, m_property = None, m_content = Some ''x'' \<rparr>"

definition untitled_output :: seo_output where
  "untitled_output =
     \<lparr> meta = Some [property_entry ''og:title'', property_entry ''og:description'',
                     property_entry ''og:image'', property_entry ''og:url'',
                     name_entry ''twitter:card'', name_entry ''twitter:title'',
                     name_entry ''twitter:description'', name_entry ''twitter:image''],
       link = Some [\<lparr> rel = Some ''canonical'' \<rparr>], script = NoScript \<rparr>"

text \<open>A title of 38 characters with an apostrophe, a document that passes it, between
  double quotes, and the description of 218 characters to \<open>generateSEO\<close>, and the
  metadata record of this document.\<close>

definition apostrophe_title :: string where
  "apostrophe_title = ''Bob'' @ [CHR 0x27] @ ''s handmade ceramic mugs and bowls.''"

definition apostrophe_doc :: string where
  "apostrophe_doc =
     ''useHead(generateSEO({ title: '' @ [CHR 0x22] @ apostrophe_title @ [CHR 0x22]
     @ '', description: '' @ [CHR 0x22] @ scenario_description @ [CHR 0x22] @ '' }))''"

definition apostrophe_record :: metaInfo where
  "apostrophe_record =
     \<lparr> meta_title = Some ''Bob'', meta_description = Some scenario_description,
       ogTags = [''title'', ''description'', ''image'', ''url'', ''type'', ''site_name''],
       twitterTags = [''card'', ''title'', ''description'', ''image'', ''site''],
       canonical = True,
       issues = [''Title too short (3 chars, recommended: 50-60)'',
                 ''Meta description too long (218 chars, recommended: 120-160)''],
       ogImage = None \<rparr>"

text \<open>A record with four card-service tags and one open-graph tag, and the results of a
  run on twenty documents: six records with both kinds of tags, this record, and thirteen
  documents without coverage.\<close>

definition card_only_record :: pageResult where
  "card_only_record =
     home_record \<lparr> path := ''cards.vue'', pageName := ''cards'',
                   page_metaTags := (page_metaTags home_record) \<lparr> ogTags := [''title''] \<rparr> \<rparr>"

definition twenty_results :: results where
  "twenty_results =
     initial_results \<lparr> pagesWithSEO := replicate 6 home_record @ [card_only_record],
                       pagesWithoutSEO := replicate 13 uncovered_record \<rparr>"
section \<open>Properties of the parameter extractor\<close>

lemma filter_dropWhile_disjoint:
  "(\<And>x. Q x \<Longrightarrow> \<not> P x) \<Longrightarrow> filter P (dropWhile Q xs) = filter P xs"
  by (induction xs) auto

text \<open>Trimming removes white space only, so it keeps every opening brace.\<close>

lemma count_open_braces_trim: "count_open_braces (trim s) = count_open_braces s"
proof -
  have ns: "\<And>x. is_space x \<Longrightarrow> \<not> x = CHR ''{''"
    by (auto simp: is_space_def)
  have "length (filter (\<lambda>c. c = CHR ''{'') (rev (dropWhile is_space (rev (dropWhile is_space s)))))
      = length (filter (\<lambda>c. c = CHR ''{'') (dropWhile is_space (rev (dropWhile is_space s))))"
    by (simp add: rev_filter [symmetric])
  also have "\<dots> = length (filter (\<lambda>c. c = CHR ''{'') (rev (dropWhile is_space s)))"
    by (simp add: filter_dropWhile_disjoint [OF ns])
  also have "\<dots> = length (filter (\<lambda>c. c = CHR ''{'') (dropWhile is_space s))"
    by (simp add: rev_filter [symmetric])
  also have "\<dots> = length (filter (\<lambda>c. c = CHR ''{'') s)"
    by (simp add: filter_dropWhile_disjoint [OF ns])
  finally show ?thesis by (simp add: count_open_braces_def trim_def)
qed

lemma array_count_of_span:
  "array_span name paramString = Some sp \<Longrightarrow>
   array_count name paramString =
     (if trim sp = [] then None
      else if count_open_braces sp > 0 then Some (count_open_braces sp) else Some 1)"
  by (simp add: array_count_def Let_def count_open_braces_trim)

lemma param_count_extract:
  "generateSEO_call content = Some paramString \<Longrightarrow> name \<in> set arrayParams \<Longrightarrow>
   \<exists>p. extractGenerateSEOParams content = Some p \<and> param_count name p = array_count name paramString"
  by (auto simp: extractGenerateSEOParams_def arrayParams_def param_count_def)

text \<open>
  Claim C6. When the call is found and the bracketed list of a collection field (one of
  faqs, branches, services, products, news) is matched in the call's argument text, the
  extractor returns a parameter set in which the field is absent if the span is empty
  after trimming, and otherwise holds the number of opening braces of the span, or 1 when
  the span has none.
\<close>

theorem collection_count_from_span:
  assumes "generateSEO_call content = Some paramString"
      and "name \<in> set arrayParams"
      and "array_span name paramString = Some sp"
  shows "\<exists>p. extractGenerateSEOParams content = Some p \<and>
             param_count name p =
               (if trim sp = [] then None
                else if count_open_braces sp > 0 then Some (count_open_braces sp)
                else Some 1)"
  using param_count_extract [OF assms(1) assms(2)] array_count_of_span [OF assms(3)] by simp

lemma collections_doc_call: "generateSEO_call collections_doc = Some collections_args"
  by (simp add: collections_doc_def collections_args_def generateSEO_call_def
      generateSEO_call_at_def after_literal_def skip_ws_def is_space_def closes_call_def)

lemma collections_doc_faqs: "array_span ''faqs'' collections_args = Some ''{q}, {r}, {s}''"
  by (simp add: collections_args_def array_span_def bracketed_at_def after_literal_def
      skip_ws_def is_space_def)

lemma collections_doc_news: "array_span ''news'' collections_args = Some '' latest ''"
  by (simp add: collections_args_def array_span_def bracketed_at_def after_literal_def
      skip_ws_def is_space_def)

lemma collections_doc_products: "array_span ''products'' collections_args = Some ''  ''"
  by (simp add: collections_args_def array_span_def bracketed_at_def after_literal_def
      skip_ws_def is_space_def)

theorem collection_count_from_span_witness:
  "(\<exists>p. extractGenerateSEOParams collections_doc = Some p \<and> param_count ''faqs'' p = Some 3)
   \<and> (\<exists>p. extractGenerateSEOParams collections_doc = Some p \<and> param_count ''news'' p = Some 1)
   \<and> (\<exists>p. extractGenerateSEOParams collections_doc = Some p \<and> param_count ''products'' p = None)"
  using collection_count_from_span [OF collections_doc_call _ collections_doc_faqs]
        collection_count_from_span [OF collections_doc_call _ collections_doc_news]
        collection_count_from_span [OF collections_doc_call _ collections_doc_products]
  by (simp add: arrayParams_def trim_def is_space_def count_open_braces_def numeral_3_eq_3)

section \<open>Properties of the fallback mapping\<close>

text \<open>
  Claim C7, as stated, at a parameter set with a products count of 5 that also has a FAQ
  count of 2: the fallback mapping yields the collection-derived entry \<open>FAQPage (2 FAQs)\<close>
  besides the product entry.
\<close>

theorem products_only_counterexample:
  "products \<lparr> title = None, description = None, image = None, faqs = Some 2, branches = None,
       services = None, products = Some 5, news = None, grant = False, contactPage = False,
       awards = False, breadcrumb = False \<rparr> = Some 5 \<and>
   filter other_collection_entry
     (mapParamsToSchemas (Some \<lparr> title = None, description = None, image = None, faqs = Some 2,
       branches = None, services = None, products = Some 5, news = None, grant = False,
       contactPage = False, awards = False, breadcrumb = False \<rparr>)) = [''FAQPage (2 FAQs)'']"
  by (simp add: mapParamsToSchemas_def counted_schema_def positive_count_def
      other_collection_entry_def string_of_nat.simps digit_char_def)

text \<open>
  Claim C7, amended. For every parameter set with a products count of 5 in which the
  counts of faqs, branches, services and news are absent (or zero), the fallback mapping
  yields the two base types, the entry \<open>Product (5 products)\<close> and then only the
  presence-derived types; no entry is derived from another collection field.
\<close>

theorem products_only_schemas:
  assumes "products p = Some 5"
      and "faqs p = None \<or> faqs p = Some 0"
      and "branches p = None \<or> branches p = Some 0"
      and "services p = None \<or> services p = Some 0"
      and "news p = None \<or> news p = Some 0"
  shows "mapParamsToSchemas (Some p) =
           [''WebPage'', ''Organization'', ''Product (5 products)'']
           @ (if grant p then [''Grant''] else [])
           @ (if contactPage p then [''ContactPage''] else [])
           @ (if awards p then [''Awards''] else [])
           @ (if breadcrumb p then [''BreadcrumbList''] else [])
         \<and> ''Product (5 products)'' \<in> set (mapParamsToSchemas (Some p))
         \<and> filter other_collection_entry (mapParamsToSchemas (Some p)) = []"
proof -
  have five: "string_of_nat 5 = ''5''"
    by (simp add: string_of_nat.simps digit_char_def)
  have shape: "mapParamsToSchemas (Some p) =
           [''WebPage'', ''Organization'', ''Product (5 products)'']
           @ (if grant p then [''Grant''] else [])
           @ (if contactPage p then [''ContactPage''] else [])
           @ (if awards p then [''Awards''] else [])
           @ (if breadcrumb p then [''BreadcrumbList''] else [])"
    using assms by (auto simp: mapParamsToSchemas_def counted_schema_def positive_count_def five)
  show ?thesis
    unfolding shape by (simp add: other_collection_entry_def)
qed

lemma products_doc_params: "extractGenerateSEOParams products_doc = Some products_params"
  by code_simp

theorem products_only_schemas_witness:
  "extractGenerateSEOParams products_doc = Some products_params
   \<and> mapParamsToSchemas (Some products_params)
     = [''WebPage'', ''Organization'', ''Product (5 products)'']"
  using products_only_schemas [of products_params] products_doc_params
  by (simp add: products_params_def)


section \<open>Properties of the matchers\<close>

lemma first_match_None_iff:
  "first_match m s = None \<longleftrightarrow> (\<forall>k \<le> length s. m (drop k s) = None)"
proof (induction s)
  case Nil
  then show ?case by simp
next
  case (Cons c cs)
  have "(\<forall>k \<le> length (c # cs). m (drop k (c # cs)) = None)
        \<longleftrightarrow> m (c # cs) = None \<and> (\<forall>k \<le> length cs. m (drop k cs) = None)"
  proof
    assume a: "\<forall>k \<le> length (c # cs). m (drop k (c # cs)) = None"
    have "m (drop 0 (c # cs)) = None" using a by blast
    moreover have "\<forall>k \<le> length cs. m (drop k cs) = None"
    proof (intro allI impI)
      fix k assume "k \<le> length cs"
      then have "m (drop (Suc k) (c # cs)) = None" using a by (metis Suc_le_mono length_Cons)
      then show "m (drop k cs) = None" by simp
    qed
    ultimately show "m (c # cs) = None \<and> (\<forall>k \<le> length cs. m (drop k cs) = None)" by simp
  next
    assume b: "m (c # cs) = None \<and> (\<forall>k \<le> length cs. m (drop k cs) = None)"
    show "\<forall>k \<le> length (c # cs). m (drop k (c # cs)) = None"
    proof (intro allI impI)
      fix k assume "k \<le> length (c # cs)"
      then show "m (drop k (c # cs)) = None" using b by (cases k) auto
    qed
  qed
  then show ?case using Cons.IH by (auto split: option.splits)
qed

lemma includes_str_iff: "includes_str s p \<longleftrightarrow> (\<exists>k \<le> length s. startsWith (drop k s) p)"
proof (induction s)
  case Nil
  then show ?case by (cases p) auto
next
  case (Cons c cs)
  have "(\<exists>k \<le> length (c # cs). startsWith (drop k (c # cs)) p)
        \<longleftrightarrow> startsWith (c # cs) p \<or> (\<exists>k \<le> length cs. startsWith (drop k cs) p)"
  proof
    assume "\<exists>k \<le> length (c # cs). startsWith (drop k (c # cs)) p"
    then obtain k where k: "k \<le> length (c # cs)" "startsWith (drop k (c # cs)) p" by blast
    show "startsWith (c # cs) p \<or> (\<exists>k \<le> length cs. startsWith (drop k cs) p)"
    proof (cases k)
      case 0
      then show ?thesis using k by simp
    next
      case (Suc j)
      then have "j \<le> length cs" "startsWith (drop j cs) p" using k by auto
      then show ?thesis by blast
    qed
  next
    assume "startsWith (c # cs) p \<or> (\<exists>k \<le> length cs. startsWith (drop k cs) p)"
    then show "\<exists>k \<le> length (c # cs). startsWith (drop k (c # cs)) p"
    proof
      assume "startsWith (c # cs) p"
      then have "startsWith (drop 0 (c # cs)) p" by simp
      then show ?thesis by blast
    next
      assume "\<exists>k \<le> length cs. startsWith (drop k cs) p"
      then obtain k where "k \<le> length cs" "startsWith (drop k cs) p" by blast
      then have "Suc k \<le> length (c # cs)" "startsWith (drop (Suc k) (c # cs)) p" by auto
      then show ?thesis by blast
    qed
  qed
  then show ?case using Cons.IH by simp
qed

text \<open>A pattern that begins with a literal has no match in a text without the literal.\<close>

lemma no_literal_no_match:
  assumes "\<not> includes_str s lit" and "\<And>t. m t \<noteq> None \<Longrightarrow> startsWith t lit"
  shows "first_match m s = None"
  using assms unfolding first_match_None_iff includes_str_iff by blast

lemma template_at_starts: "template_at t \<noteq> None \<Longrightarrow> startsWith t ''<template''"
  by (auto simp: template_at_def after_literal_def split: if_splits)

lemma generateSEO_call_at_starts: "generateSEO_call_at t \<noteq> None \<Longrightarrow> startsWith t ''generateSEO''"
  by (auto simp: generateSEO_call_at_def after_literal_def split: if_splits)

lemma no_template_tag: "\<not> includes_str content ''<template'' \<Longrightarrow> template_region content = None"
  unfolding template_region_def by (rule no_literal_no_match [OF _ template_at_starts])

lemma no_generateSEO_text:
  "\<not> includes_str content ''generateSEO'' \<Longrightarrow> generateSEO_call content = None"
  unfolding generateSEO_call_def by (rule no_literal_no_match [OF _ generateSEO_call_at_starts])

section \<open>Properties of the document checks\<close>

lemma no_template_checks:
  assumes "template_region content = None"
  shows "checkHeadingStructure content = Inr \<lparr> h1Count = 0, levels = [], heading_issues = [] \<rparr>"
    and "checkImages content =
           \<lparr> totalImages = 0, imagesWithAlt = 0, imagesWithoutAlt = 0, image_issues = [] \<rparr>"
  using assms by (simp_all add: checkHeadingStructure_def checkImages_def)

lemma plain_doc_no_template: "template_region plain_doc = None"
  by (simp add: plain_doc_def template_region_def template_at_def after_literal_def)

text \<open>
  Claim C10. For every document text in which the template pattern
  \<open><template[^>]*>...</template>\<close> has no match, the heading check returns the count 0, no
  heading levels and no issue, and the image check returns three counts of 0 and no
  issue: no H1 issue, no hierarchy issue, no alt-text issue and no lazy-loading suggestion.
\<close>

theorem no_template_no_findings:
  assumes "template_region content = None"
  shows "checkHeadingStructure content = Inr \<lparr> h1Count = 0, levels = [], heading_issues = [] \<rparr>
       \<and> checkImages content =
           \<lparr> totalImages = 0, imagesWithAlt = 0, imagesWithoutAlt = 0, image_issues = [] \<rparr>"
  using no_template_checks [OF assms] by simp

theorem no_template_no_findings_witness:
  "checkHeadingStructure plain_doc = Inr \<lparr> h1Count = 0, levels = [], heading_issues = [] \<rparr>
   \<and> checkImages plain_doc =
       \<lparr> totalImages = 0, imagesWithAlt = 0, imagesWithoutAlt = 0, image_issues = [] \<rparr>"
  using no_template_no_findings [OF plain_doc_no_template] .

text \<open>The heading check never throws: every match of the heading pattern starts with
  the text that the level is read from.\<close>

lemma all_matches_from:
  "t \<in> set (all_matches m k s) \<Longrightarrow> \<exists>u. m u = Some t"
proof (induction m k s rule: all_matches.induct)
  case (1 m k)
  then show ?case by simp
next
  case (2 m k c cs)
  then show ?case by simp
next
  case (3 m c cs)
  then show ?case by (auto split: option.splits)
qed

lemma heading_digit_at_cong:
  "take 3 s = take 3 t \<Longrightarrow> length s \<ge> 3 \<Longrightarrow> heading_digit_at s = heading_digit_at t"
  by (auto simp: heading_digit_at_def split: list.splits)

lemma heading_at_digit:
  assumes "heading_at u = Some t"
  shows "heading_digit_at t \<noteq> None"
proof -
  from assms obtain d where d: "heading_digit_at u = Some d"
    by (auto simp: heading_at_def split: option.splits)
  then obtain a b r where u: "u = a # b # d # r"
    by (auto simp: heading_digit_at_def split: list.splits if_splits)
  from assms d obtain rest where "t = take 3 u @ rest"
    by (auto simp: heading_at_def)
  then have "t = a # b # d # rest" using u by simp
  then show ?thesis using d u by (auto simp: heading_digit_at_def split: if_splits)
qed

lemma first_match_here: "m s \<noteq> None \<Longrightarrow> first_match m s = m s"
  by (cases s) (auto split: option.splits)

lemma heading_loop_total:
  assumes "\<And>h. h \<in> set hs \<Longrightarrow> heading_digit_at h \<noteq> None"
  shows "\<exists>v. foldl heading_step (Inr acc) hs = Inr v"
  using assms
proof (induction hs arbitrary: acc)
  case Nil
  have "foldl heading_step (Inr acc) [] = Inr acc" by simp
  then show ?case by (rule exI)
next
  case (Cons h hs)
  have "heading_digit_at h \<noteq> None" using Cons.prems by simp
  then obtain d where d: "first_match heading_digit_at h = Some d"
    using first_match_here [of heading_digit_at h] by auto
  have "\<exists>acc'. heading_step (Inr acc) h = Inr acc'"
  proof (cases acc rule: prod_cases3)
    case (fields hs' lastLevel hierarchyBroken)
    show ?thesis unfolding fields using d by (simp add: heading_step_def Let_def)
  qed
  then obtain acc' where "heading_step (Inr acc) h = Inr acc'" by blast
  then show ?case using Cons.IH [of acc'] Cons.prems by simp
qed

lemma checkHeadingStructure_total: "\<exists>h. checkHeadingStructure content = Inr h"
proof (cases "template_region content")
  case None
  then show ?thesis by (simp add: checkHeadingStructure_def)
next
  case (Some template)
  have "\<And>h. h \<in> set (all_matches heading_at 0 template) \<Longrightarrow> heading_digit_at h \<noteq> None"
    using all_matches_from heading_at_digit by blast
  from heading_loop_total [OF this, where acc = "([], 0, False)"]
  obtain v where "foldl heading_step (Inr ([], 0, False)) (all_matches heading_at 0 template) = Inr v"
    by blast
  then show ?thesis using Some
    by (cases v rule: prod_cases3) (auto simp: checkHeadingStructure_def Let_def)
qed


section \<open>Properties of the per-document record\<close>

lemma checkPageSEO_evaluated:
  "snd (checkPageSEO ev rp content) =
     (if list_ex (\<lambda>ignorePath. includes_str rp ignorePath) ignorePaths then []
      else (case (if includes_str content ''generateSEO('' then extractGenerateSEOParams content
                  else None) of
              None \<Rightarrow> [] | Some p \<Rightarrow> [p]))"
  by (simp add: checkPageSEO_def Let_def split: sum.splits)

lemma checkPageSEO_record:
  assumes "checkPageSEO ev rp content = (Some r, evs)"
  shows "hasGenerateSEO r = includes_str content ''generateSEO(''"
    and "hasUseSeoMeta r = includes_str content ''useSeoMeta(''"
    and "hasUseHead r = includes_str content ''useHead(''"
    and "hasSEO r = ((hasGenerateSEO r \<or> hasUseSeoMeta r) \<and> hasUseHead r)"
    and "schemaDetails r = (if includes_str content ''generateSEO(''
                            then extractGenerateSEOParams content else None)"
    and "pageName r = strip_vue rp"
  using assms by (auto simp: checkPageSEO_def Let_def split: if_splits sum.splits)

lemma meta_only_doc_record:
  "checkPageSEO no_sandbox ''about.vue'' meta_only_doc = (Some meta_only_record, [])"
  by code_simp

lemma home_doc_record:
  "checkPageSEO no_sandbox ''index.vue'' home_doc = (Some home_record, [home_params])"
  by code_simp

lemma bare_doc_record:
  "checkPageSEO no_sandbox ''bare.vue'' bare_doc = (Some bare_record, [bare_params])"
  by code_simp

lemma variable_call_doc_no_call: "generateSEO_call variable_call_doc = None"
  by code_simp

text \<open>
  Claim C8. For every document text in which the call pattern of the metadata-generation
  entry point has no match, the parameter extractor returns \<open>null\<close> (the value \<open>None\<close>,
  neither an error nor a parameter set), and \<open>checkPageSEO\<close> calls the sandbox evaluator
  on no parameter set, whatever the evaluator and the path.
\<close>

theorem no_call_no_evaluation:
  assumes "generateSEO_call content = None"
  shows "extractGenerateSEOParams content = None \<and> snd (checkPageSEO ev rp content) = []"
  using assms by (simp add: extractGenerateSEOParams_def checkPageSEO_evaluated)

theorem no_call_no_evaluation_witness:
  "includes_str variable_call_doc ''generateSEO(''
   \<and> extractGenerateSEOParams variable_call_doc = None
   \<and> snd (checkPageSEO no_sandbox ''list.vue'' variable_call_doc) = []"
proof -
  have "includes_str variable_call_doc ''generateSEO(''" by code_simp
  then show ?thesis
    using no_call_no_evaluation [OF variable_call_doc_no_call, of no_sandbox "''list.vue''"]
    by simp
qed

text \<open>Without sandbox output every document whose path is not ignored gets a record.\<close>

lemma checkPageSEO_static_total:
  assumes "\<not> list_ex (\<lambda>ignorePath. includes_str rp ignorePath) ignorePaths"
  shows "\<exists>r. fst (checkPageSEO no_sandbox rp content) = Some r"
proof -
  obtain h where h: "checkHeadingStructure content = Inr h"
    using checkHeadingStructure_total by blast
  have m: "\<And>x. checkMetaTags content (case x of None \<Rightarrow> None | Some p \<Rightarrow> no_sandbox p)
            = Inr (checkMetaTags_static content)"
    by (simp add: checkMetaTags_def no_sandbox_def split: option.splits)
  show ?thesis
    using assms h m by (simp add: checkPageSEO_def Let_def)
qed


section \<open>Properties of the aggregator\<close>

lemma aggregate_step_uncovered:
  "\<not> covered x \<Longrightarrow>
   \<exists>res'. aggregate_step res x = Inr res' \<and> ogImageUsage res' = ogImageUsage res
          \<and> pagesWithoutOGImage res' = pagesWithoutOGImage res"
  by (auto simp: covered_def aggregate_step_def split: option.splits)

lemma aggregate_step_usage_cong:
  assumes "ogImageUsage res1 = ogImageUsage res2"
  shows "map_sum id ogImageUsage (aggregate_step res1 x)
       = map_sum id ogImageUsage (aggregate_step res2 x)"
  using assms by (auto simp: aggregate_step_def Let_def split: option.splits)

lemma aggregate_usage_cong:
  "ogImageUsage res1 = ogImageUsage res2 \<Longrightarrow>
   map_sum id ogImageUsage (aggregate res1 xs) = map_sum id ogImageUsage (aggregate res2 xs)"
proof (induction xs arbitrary: res1 res2)
  case Nil
  then show ?case by simp
next
  case (Cons x xs)
  have step: "map_sum id ogImageUsage (aggregate_step res1 x)
            = map_sum id ogImageUsage (aggregate_step res2 x)"
    by (rule aggregate_step_usage_cong [OF Cons.prems])
  show ?case
  proof (cases "aggregate_step res1 x")
    case (Inl e)
    then show ?thesis using step by (cases "aggregate_step res2 x") auto
  next
    case (Inr r1)
    then obtain r2 where r2: "aggregate_step res2 x = Inr r2" "ogImageUsage r1 = ogImageUsage r2"
      using step by (cases "aggregate_step res2 x") auto
    show ?thesis using Inr r2 Cons.IH [OF r2(2)] by simp
  qed
qed

text \<open>The image usage index after the aggregation is the one that the results with
  coverage alone produce.\<close>

lemma aggregate_skips_uncovered:
  "map_sum id ogImageUsage (aggregate res xs)
   = map_sum id ogImageUsage (aggregate res (filter covered xs))"
proof (induction xs arbitrary: res)
  case Nil
  then show ?case by simp
next
  case (Cons x xs)
  show ?case
  proof (cases "covered x")
    case True
    then show ?thesis using Cons.IH by (simp split: sum.splits)
  next
    case False
    then obtain res' where r: "aggregate_step res x = Inr res'" "ogImageUsage res' = ogImageUsage res"
      using aggregate_step_uncovered by blast
    have "map_sum id ogImageUsage (aggregate res (x # xs)) = map_sum id ogImageUsage (aggregate res' xs)"
      using r by simp
    also have "\<dots> = map_sum id ogImageUsage (aggregate res xs)"
      by (rule aggregate_usage_cong [OF r(2)])
    also have "\<dots> = map_sum id ogImageUsage (aggregate res (filter covered xs))"
      by (rule Cons.IH)
    finally show ?thesis using False by (simp only: filter.simps if_False)
  qed
qed

text \<open>
  Claim C1. The record that \<open>checkPageSEO\<close> returns for a document has \<open>hasSEO\<close> true if
  and only if the text contains \<open>generateSEO(\<close> or \<open>useSeoMeta(\<close>, and contains \<open>useHead(\<close>.
  The aggregation step of a record with \<open>hasSEO\<close> false succeeds and leaves the image
  usage index as it was; and the index after a whole aggregation is the index that the
  results with coverage alone produce.
\<close>

theorem hasSEO_iff_calls:
  "(checkPageSEO ev rp content = (Some r, evs) \<longrightarrow>
      hasSEO r = ((includes_str content ''generateSEO('' \<or> includes_str content ''useSeoMeta('')
                  \<and> includes_str content ''useHead(''))
   \<and> (\<not> hasSEO r' \<longrightarrow>
        (\<exists>res'. aggregate_step res (Some r') = Inr res' \<and> ogImageUsage res' = ogImageUsage res))
   \<and> map_sum id ogImageUsage (aggregate res xs)
       = map_sum id ogImageUsage (aggregate res (filter covered xs))"
proof (intro conjI impI)
  assume a: "checkPageSEO ev rp content = (Some r, evs)"
  show "hasSEO r = ((includes_str content ''generateSEO('' \<or> includes_str content ''useSeoMeta('')
                  \<and> includes_str content ''useHead('')"
    using checkPageSEO_record [OF a] by simp
next
  assume "\<not> hasSEO r'"
  then have "\<not> covered (Some r')" by (simp add: covered_def)
  then show "\<exists>res'. aggregate_step res (Some r') = Inr res' \<and> ogImageUsage res' = ogImageUsage res"
    using aggregate_step_uncovered by blast
next
  show "map_sum id ogImageUsage (aggregate res xs)
       = map_sum id ogImageUsage (aggregate res (filter covered xs))"
    by (rule aggregate_skips_uncovered)
qed

lemma uncovered_doc_record:
  "checkPageSEO no_sandbox ''legal.vue'' uncovered_doc = (Some uncovered_record, [])"
  by code_simp

theorem hasSEO_iff_calls_witness:
  "hasSEO home_record \<and> includes_str home_doc ''generateSEO('' \<and> includes_str home_doc ''useHead(''
   \<and> \<not> hasSEO uncovered_record
   \<and> (\<exists>res'. aggregate_step initial_results (Some uncovered_record) = Inr res'
             \<and> ogImageUsage res' = ogImageUsage initial_results)"
proof -
  have a: "hasSEO home_record" "\<not> hasSEO uncovered_record"
    by (simp_all add: home_record_def uncovered_record_def)
  have b: "includes_str home_doc ''generateSEO(''" "includes_str home_doc ''useHead(''"
    by code_simp+
  show ?thesis
    using hasSEO_iff_calls [of no_sandbox "''index.vue''" home_doc home_record "[home_params]"
        uncovered_record initial_results "[]"] home_doc_record a b
    by simp
qed

lemma image_reference_nonempty: "image_reference r = Some img \<Longrightarrow> img \<noteq> []"
  by (auto simp: image_reference_def split: option.splits list.splits)

lemma step_effect:
  assumes "aggregate_step res x = Inr res'"
  shows "pagesWithoutOGImage res' =
           pagesWithoutOGImage res @ map pageName (filter missing_image (page_records [x]))"
    and "entry (ogImageUsage res') img =
           entry (ogImageUsage res) img @ map pageName (filter (indexed_under img) (page_records [x]))"
  using assms
  by (auto simp: aggregate_step_def Let_def missing_image_def indexed_under_def entry_def
      split: option.splits if_splits)

lemma page_records_Cons: "page_records (x # xs) = page_records [x] @ page_records xs"
  by (cases x) simp_all

lemma aggregate_effect:
  "aggregate res xs = Inr res' \<Longrightarrow>
     pagesWithoutOGImage res' =
       pagesWithoutOGImage res @ map pageName (filter missing_image (page_records xs))
     \<and> entry (ogImageUsage res') img =
       entry (ogImageUsage res) img @ map pageName (filter (indexed_under img) (page_records xs))"
proof (induction xs arbitrary: res)
  case Nil
  then show ?case by simp
next
  case (Cons x xs)
  from Cons.prems obtain mid where mid: "aggregate_step res x = Inr mid" "aggregate mid xs = Inr res'"
    by (auto split: sum.splits)
  note s = step_effect(1) [OF mid(1)] step_effect(2) [OF mid(1), of img]
  note ih = Cons.IH [OF mid(2)]
  show ?case
    unfolding page_records_Cons [of x xs] using s ih by simp
qed

lemma step_total:
  assumes "safe_images (page_records [x])"
  shows "\<exists>res'. aggregate_step res x = Inr res'"
  using assms
  by (cases x) (auto simp: aggregate_step_def Let_def safe_images_def split: option.splits)

lemma aggregate_total:
  "safe_images (page_records xs) \<Longrightarrow> \<exists>res'. aggregate res xs = Inr res'"
proof (induction xs arbitrary: res)
  case Nil
  then show ?case by simp
next
  case (Cons x xs)
  have "safe_images (page_records [x])" "safe_images (page_records xs)"
    using Cons.prems unfolding page_records_Cons [of x xs] by (simp_all add: safe_images_def)
  then obtain mid where "aggregate_step res x = Inr mid"
    using step_total by blast
  then show ?case using Cons.IH [OF \<open>safe_images (page_records xs)\<close>, of mid] by simp
qed

text \<open>
  Claim C9, amended. When no record with coverage carries an image reference that names a
  property inherited from \<open>Object.prototype\<close>, the aggregation succeeds, and it appends
  the short name of every record with coverage that carries an image reference to that
  image's entry in the image usage index, and the short name of every record with
  coverage that uses \<open>generateSEO\<close> and carries no image reference to the list
  \<open>pagesWithoutOGImage\<close>, in the order of the results; nothing else is added to either.
\<close>

theorem image_index_and_missing_list:
  assumes "safe_images (page_records xs)"
  shows "\<exists>res'. aggregate res xs = Inr res'
           \<and> pagesWithoutOGImage res' =
               pagesWithoutOGImage res @ map pageName (filter missing_image (page_records xs))
           \<and> (\<forall>img. entry (ogImageUsage res') img =
                 entry (ogImageUsage res) img
                 @ map pageName (filter (indexed_under img) (page_records xs)))"
proof -
  obtain res' where r: "aggregate res xs = Inr res'"
    using aggregate_total [OF assms] by blast
  show ?thesis using r aggregate_effect [OF r] by blast
qed

text \<open>
  Claim C9, as stated, at the document \<open>useSeoMeta({ title: `Hi` }); useHead({})\<close>: its
  record has coverage and carries no image reference, and the aggregation adds it to
  \<open>pagesWithSEO\<close> only, the list \<open>pagesWithoutOGImage\<close> staying empty.
\<close>

theorem missing_image_counterexample:
  "checkPageSEO no_sandbox ''about.vue'' meta_only_doc = (Some meta_only_record, [])
   \<and> hasSEO meta_only_record
   \<and> image_reference meta_only_record = None
   \<and> aggregate initial_results [Some meta_only_record]
       = Inr (initial_results \<lparr> pagesWithSEO := [meta_only_record] \<rparr>)
   \<and> pagesWithoutOGImage (initial_results \<lparr> pagesWithSEO := [meta_only_record] \<rparr>) = []"
  using meta_only_doc_record
  by (simp add: meta_only_record_def image_reference_def aggregate_step_def initial_results_def)

text \<open>Six results: two pages with the same image, a page covered through \<open>useSeoMeta\<close>,
  an ignored page, a page that uses \<open>generateSEO\<close> without an image, and a page without
  coverage.\<close>

lemma example_safe: "safe_images (page_records [Some home_record, Some meta_only_record, None, Some bare_record, Some uncovered_record, Some (home_record \<lparr> pageName := ''landing'' \<rparr>)])"
  by code_simp

theorem image_index_and_missing_list_witness:
  "\<exists>res'. aggregate initial_results
            [Some home_record, Some meta_only_record, None, Some bare_record,
             Some uncovered_record, Some (home_record \<lparr> pageName := ''landing'' \<rparr>)] = Inr res'
         \<and> pagesWithoutOGImage res' = [''bare'']
         \<and> entry (ogImageUsage res') ''/og/home.png'' = [''index'', ''landing'']"
proof -
  have m: "map pageName (filter missing_image (page_records
            [Some home_record, Some meta_only_record, None, Some bare_record,
             Some uncovered_record, Some (home_record \<lparr> pageName := ''landing'' \<rparr>)])) = [''bare'']"
    by code_simp
  have i: "map pageName (filter (indexed_under ''/og/home.png'') (page_records
            [Some home_record, Some meta_only_record, None, Some bare_record,
             Some uncovered_record, Some (home_record \<lparr> pageName := ''landing'' \<rparr>)])) = [''index'', ''landing'']"
    by code_simp
  have e: "entry (ogImageUsage initial_results) ''/og/home.png'' = []"
    "pagesWithoutOGImage initial_results = []"
    by (simp_all add: initial_results_def entry_def)
  show ?thesis
    using image_index_and_missing_list [OF example_safe, of initial_results] m i e
    by auto
qed


section \<open>Properties of the number model\<close>

text \<open>\<open>to_double\<close> returns a double, and no double is nearer to its argument; so it is
  monotone and leaves every double as it is.\<close>

lemma pow2_powi: "pow2 e = 2 powi e"
  by (simp add: pow2_def power_int_def inverse_eq_divide power_one_over)

lemma pow2_pos: "0 < pow2 e"
  by (simp add: pow2_powi)

lemma pow2_add: "pow2 (a + b) = pow2 a * pow2 b"
  by (simp add: pow2_powi power_int_add)

lemma pow2_diff: "pow2 (a - b) = pow2 a / pow2 b"
  by (simp add: pow2_powi power_int_diff)

lemma pow2_nat: "pow2 (int n) = 2 ^ n"
  by (simp add: pow2_def)

lemma pow2_mono: "a \<le> b \<Longrightarrow> pow2 a \<le> pow2 b"
  by (simp add: pow2_powi power_int_increasing)

lemma pow2_less_imp: "pow2 a < pow2 b \<Longrightarrow> a < b"
  using pow2_mono [of b a] by (cases "a < b") auto

lemma binade_bounds:
  assumes "0 < x"
  shows "pow2 (binade x) \<le> x" and "x < pow2 (binade x + 1)"
proof -
  obtain p q where pq: "quotient_of x = (p, q)" by (cases "quotient_of x")
  have q: "0 < q" using quotient_of_denom_pos [OF pq] .
  have x: "x = of_int p / of_int q" using quotient_of_div [OF pq] .
  have p: "0 < p" using assms q unfolding x by (simp add: zero_less_divide_iff)
  define k where "k = bitlen p - bitlen q"
  have bp: "1 \<le> bitlen p" "1 \<le> bitlen q" using p q by (auto simp: bitlen_alt_def)
  have lp: "pow2 (bitlen p - 1) \<le> of_int p" "of_int p < pow2 (bitlen p)"
  proof -
    have "(2::int) ^ nat (bitlen p - 1) \<le> p" "p < 2 ^ nat (bitlen p)"
      using bitlen_bounds [OF p] by simp_all
    then have "(of_int ((2::int) ^ nat (bitlen p - 1)) :: rat) \<le> of_int p"
      "(of_int p :: rat) < of_int (2 ^ nat (bitlen p))"
      by (simp_all only: of_int_le_iff of_int_less_iff)
    then show "pow2 (bitlen p - 1) \<le> of_int p" "of_int p < pow2 (bitlen p)"
      using bp by (simp_all add: pow2_def)
  qed
  have lq: "pow2 (bitlen q - 1) \<le> of_int q" "of_int q < pow2 (bitlen q)"
  proof -
    have "(2::int) ^ nat (bitlen q - 1) \<le> q" "q < 2 ^ nat (bitlen q)"
      using bitlen_bounds [OF q] by simp_all
    then have "(of_int ((2::int) ^ nat (bitlen q - 1)) :: rat) \<le> of_int q"
      "(of_int q :: rat) < of_int (2 ^ nat (bitlen q))"
      by (simp_all only: of_int_le_iff of_int_less_iff)
    then show "pow2 (bitlen q - 1) \<le> of_int q" "of_int q < pow2 (bitlen q)"
      using bp by (simp_all add: pow2_def)
  qed
  have qpos: "(0::rat) < of_int q" using q by simp
  have lower: "pow2 (k - 1) \<le> x"
  proof -
    have "pow2 (k - 1) = pow2 (bitlen p - 1) / pow2 (bitlen q)"
      unfolding k_def by (simp add: pow2_diff [symmetric] algebra_simps)
    also have "\<dots> \<le> of_int p / pow2 (bitlen q)"
      using lp(1) pow2_pos [of "bitlen q"] by (simp add: divide_right_mono)
    also have "\<dots> \<le> of_int p / of_int q"
      using lq(2) qpos p by (simp add: frac_le)
    finally show ?thesis unfolding x .
  qed
  have upper: "x < pow2 (k + 1)"
  proof -
    have "of_int p / of_int q < pow2 (bitlen p) / of_int q"
      using lp(2) qpos by (simp add: divide_strict_right_mono)
    also have "\<dots> \<le> pow2 (bitlen p) / pow2 (bitlen q - 1)"
      using lq(1) pow2_pos [of "bitlen q - 1"] pow2_pos [of "bitlen p"] by (simp add: frac_le)
    also have "\<dots> = pow2 (k + 1)"
      unfolding k_def by (simp add: pow2_diff [symmetric] algebra_simps)
    finally show ?thesis unfolding x .
  qed
  have b: "binade x = (if pow2 k \<le> x then k else k - 1)"
    by (simp add: binade_def pq k_def Let_def)
  show "pow2 (binade x) \<le> x" using lower unfolding b by simp
  show "x < pow2 (binade x + 1)" using upper unfolding b by (simp add: not_le)
qed

lemma ties_even_le: "y \<le> of_int N \<Longrightarrow> ties_even y \<le> N"
proof -
  assume a: "y \<le> of_int N"
  have f: "\<lfloor>y\<rfloor> \<le> N" using a by (simp add: floor_le_iff) 
  have "y - of_int \<lfloor>y\<rfloor> \<noteq> 0 \<Longrightarrow> \<lfloor>y\<rfloor> + 1 \<le> N"
  proof -
    assume "y - of_int \<lfloor>y\<rfloor> \<noteq> 0"
    then have "of_int \<lfloor>y\<rfloor> < y" using of_int_floor_le [of y] by linarith
    then have "(of_int \<lfloor>y\<rfloor> :: rat) < of_int N" using a by linarith
    then show ?thesis by simp
  qed
  then show ?thesis using f by (auto simp: ties_even_def Let_def)
qed

lemma ties_even_ge: "of_int N \<le> y \<Longrightarrow> N \<le> ties_even y"
proof -
  assume "of_int N \<le> y"
  then have "N \<le> \<lfloor>y\<rfloor>" by (simp add: le_floor_iff)
  then show ?thesis by (auto simp: ties_even_def Let_def)
qed

lemma ties_even_nearest: "\<bar>y - of_int (ties_even y)\<bar> \<le> \<bar>y - of_int k\<bar>"
proof -
  define f where "f = \<lfloor>y\<rfloor>"
  define r where "r = y - of_int f"
  have r: "0 \<le> r" "r < 1" unfolding r_def f_def by linarith+
  have y: "y = of_int f + r" unfolding r_def by simp
  have t: "ties_even y = (if r < 1 / 2 then f else if 1 / 2 < r then f + 1 else if even f then f else f + 1)"
    by (simp add: ties_even_def Let_def f_def r_def)
  have near: "\<bar>y - of_int (ties_even y)\<bar> \<le> 1 / 2" "\<bar>y - of_int (ties_even y)\<bar> \<le> r"
    "\<bar>y - of_int (ties_even y)\<bar> \<le> 1 - r"
    unfolding t using r by (auto simp: y)
  show ?thesis
  proof (cases "k \<le> f")
    case True
    then have "(of_int k :: rat) \<le> of_int f" by simp
    then have "\<bar>y - of_int k\<bar> \<ge> r" unfolding y using r by linarith
    then show ?thesis using near(2) by linarith
  next
    case False
    then have "f + 1 \<le> k" by simp
    then have "(of_int (f + 1) :: rat) \<le> of_int k" by (simp only: of_int_le_iff)
    then have "\<bar>y - of_int k\<bar> \<ge> 1 - r" unfolding y using r by simp
    then show ?thesis using near(3) by linarith
  qed
qed

lemma to_double_nonneg: "0 \<le> x \<Longrightarrow> 0 \<le> to_double x"
proof -
  assume "0 \<le> x"
  have "0 < x \<Longrightarrow> 0 \<le> ties_even (x / ulp x)"
    by (rule ties_even_ge) (simp add: ulp_def pow2_pos less_imp_le)
  then show ?thesis using \<open>0 \<le> x\<close> by (simp add: to_double_def ulp_def pow2_pos less_imp_le)
qed

lemma to_double_nonpos: "x \<le> 0 \<Longrightarrow> to_double x \<le> 0"
proof -
  assume "x \<le> 0"
  have "x < 0 \<Longrightarrow> 0 \<le> ties_even (- x / ulp (- x))"
    by (rule ties_even_ge) (simp add: ulp_def pow2_pos less_imp_le divide_le_0_iff)
  then show ?thesis using \<open>x \<le> 0\<close>
    by (auto simp: to_double_def ulp_def pow2_pos less_imp_le mult_nonneg_nonneg)
qed

lemma to_double_le_int:
  assumes "x \<le> of_int K" "0 \<le> K" "K < 2 ^ 53"
  shows "to_double x \<le> of_int K"
proof (cases "0 < x")
  case False
  then have "to_double x \<le> 0" by (simp add: to_double_nonpos)
  then show ?thesis using assms(2) by simp
next
  case True
  define j where "j = max (binade x) (- 1022) - 52"
  have "pow2 (binade x) \<le> x" by (rule binade_bounds [OF True])
  also have "x \<le> of_int K" by (rule assms(1))
  also have "(of_int K :: rat) < of_int (2 ^ 53)" using assms(3) by (simp only: of_int_less_iff)
  also have "(of_int (2 ^ 53) :: rat) = pow2 53" by (simp add: pow2_def)
  finally have "binade x < 53" by (rule pow2_less_imp)
  then have j: "j \<le> 0" unfolding j_def by simp
  define n where "n = nat (- j)"
  have u: "ulp x = 1 / 2 ^ n" using j unfolding ulp_def j_def [symmetric] n_def
    by (cases "j = 0") (simp_all add: pow2_def)
  have "x / ulp x \<le> of_int K / ulp x"
    using assms(1) by (simp add: u)
  also have "of_int K / ulp x = of_int (K * 2 ^ n)" by (simp add: u)
  finally have "ties_even (x / ulp x) \<le> K * 2 ^ n" by (rule ties_even_le)
  then have "(of_int (ties_even (x / ulp x)) :: rat) \<le> of_int (K * 2 ^ n)"
    by (simp only: of_int_le_iff)
  then have "of_int (ties_even (x / ulp x)) * ulp x \<le> of_int (K * 2 ^ n) * ulp x"
    by (simp add: u field_simps)
  then show ?thesis using True by (simp add: to_double_def u)
qed


lemma scaled_distance:
  fixes x u a :: rat
  assumes "0 < u"
  shows "\<bar>x - a * u\<bar> = \<bar>x / u - a\<bar> * u"
proof -
  have "x - a * u = (x / u - a) * u" using assms by (simp add: field_simps)
  then show ?thesis using assms by (simp add: abs_mult)
qed

lemma is_double_neg: "is_double d \<Longrightarrow> is_double (- d)"
proof -
  assume "is_double d"
  then obtain m e where "d = of_int m * pow2 e" "\<bar>m\<bar> < 2 ^ 53" "- 1074 \<le> e"
    unfolding is_double_def by blast
  then have "- d = of_int (- m) * pow2 e \<and> \<bar>- m\<bar> < 2 ^ 53 \<and> - 1074 \<le> e" by simp
  then show ?thesis unfolding is_double_def by blast
qed

lemma to_double_minus: "to_double (- x) = - to_double x"
  by (simp add: to_double_def)

lemma ulp_pos: "0 < ulp x"
  by (simp add: ulp_def pow2_pos)

lemma mantissa_bounds:
  assumes "0 < x"
  shows "0 \<le> ties_even (x / ulp x)" and "ties_even (x / ulp x) \<le> 2 ^ 53"
proof -
  show "0 \<le> ties_even (x / ulp x)"
    by (rule ties_even_ge) (simp add: assms ulp_pos less_imp_le)
  define Ee where "Ee = max (binade x) (- 1022)"
  have "x < pow2 (binade x + 1)" by (rule binade_bounds [OF assms])
  also have "\<dots> \<le> pow2 (Ee + 1)" by (rule pow2_mono) (simp add: Ee_def)
  finally have "x / ulp x < pow2 (Ee + 1) / ulp x"
    using ulp_pos [of x] by (simp add: divide_strict_right_mono)
  also have "pow2 (Ee + 1) / ulp x = pow2 53"
    unfolding ulp_def Ee_def [symmetric] by (simp add: pow2_diff [symmetric])
  also have "pow2 53 = of_int (2 ^ 53)" by (simp add: pow2_def)
  finally have "x / ulp x \<le> of_int (2 ^ 53)" by simp
  then show "ties_even (x / ulp x) \<le> 2 ^ 53" by (rule ties_even_le)
qed

lemma to_double_pos_is_double:
  assumes "0 < x"
  shows "is_double (of_int (ties_even (x / ulp x)) * ulp x)"
proof -
  define Ee where "Ee = max (binade x) (- 1022)"
  define M where "M = ties_even (x / ulp x)"
  have u: "ulp x = pow2 (Ee - 52)" by (simp add: ulp_def Ee_def)
  have Ee: "- 1022 \<le> Ee" by (simp add: Ee_def)
  have M: "0 \<le> M" "M \<le> 2 ^ 53" unfolding M_def by (rule mantissa_bounds [OF assms])+
  show ?thesis
  proof (cases "M < 2 ^ 53")
    case True
    then have "of_int M * ulp x = of_int M * pow2 (Ee - 52) \<and> \<bar>M\<bar> < 2 ^ 53 \<and> - 1074 \<le> Ee - 52"
      using M Ee u by simp
    then show ?thesis unfolding is_double_def M_def [symmetric] by blast
  next
    case False
    then have m: "M = 2 ^ 53" using M by simp
    have "pow2 (Ee - 51) = pow2 1 * pow2 (Ee - 52)"
      by (simp add: pow2_add [symmetric])
    then have "of_int M * ulp x = of_int (2 ^ 52) * pow2 (Ee - 51)"
      unfolding m u by (simp add: pow2_def)
    then have "of_int M * ulp x = of_int (2 ^ 52) * pow2 (Ee - 51)
                \<and> \<bar>(2::int) ^ 52\<bar> < 2 ^ 53 \<and> - 1074 \<le> Ee - 51"
      using Ee by simp
    then show ?thesis unfolding is_double_def M_def [symmetric] by blast
  qed
qed

lemma to_double_pos_nearest:
  assumes "0 < x" "is_double d"
  shows "\<bar>x - of_int (ties_even (x / ulp x)) * ulp x\<bar> \<le> \<bar>x - d\<bar>"
proof -
  define Ee where "Ee = max (binade x) (- 1022)"
  define M where "M = ties_even (x / ulp x)"
  have u: "ulp x = pow2 (Ee - 52)" by (simp add: ulp_def Ee_def)
  have up: "0 < ulp x" by (rule ulp_pos)
  from assms(2) obtain m e where d: "d = of_int m * pow2 e" and m: "\<bar>m\<bar> < 2 ^ 53"
    and e: "- 1074 \<le> e"
    unfolding is_double_def by blast
  show ?thesis
  proof (cases "Ee - 52 \<le> e")
    case True
    define n where "n = nat (e - (Ee - 52))"
    have "pow2 e = pow2 (int n) * pow2 (Ee - 52)"
      using True unfolding n_def by (simp add: pow2_add [symmetric])
    then have dk: "d = of_int (m * 2 ^ n) * ulp x"
      unfolding d u by (simp add: pow2_nat)
    have "\<bar>x / ulp x - of_int M\<bar> \<le> \<bar>x / ulp x - of_int (m * 2 ^ n)\<bar>"
      unfolding M_def by (rule ties_even_nearest)
    then have "\<bar>x / ulp x - of_int M\<bar> * ulp x \<le> \<bar>x / ulp x - of_int (m * 2 ^ n)\<bar> * ulp x"
      using up by (simp add: mult_right_mono)
    then show ?thesis
      unfolding M_def [symmetric] dk scaled_distance [OF up] .
  next
    case False
    then have lt: "e + 53 \<le> Ee" by simp
    then have "- 1022 < Ee" using e by simp
    then have EeE: "Ee = binade x" unfolding Ee_def by simp
    have "\<bar>d\<bar> = of_int \<bar>m\<bar> * pow2 e"
      unfolding d using pow2_pos [of e] by (simp add: abs_mult)
    also have "\<dots> < of_int (2 ^ 53) * pow2 e"
    proof -
      have "(of_int \<bar>m\<bar> :: rat) < of_int (2 ^ 53)" using m by (simp only: of_int_less_iff)
      then show ?thesis using pow2_pos [of e] by (simp add: mult_strict_right_mono)
    qed
    also have "of_int (2 ^ 53) * pow2 e = pow2 (e + 53)"
    proof -
      have "pow2 53 = of_int (2 ^ 53)" by (simp add: pow2_def)
      then show ?thesis unfolding pow2_add [of e 53] by (simp only: mult.commute)
    qed
    also have "\<dots> \<le> pow2 Ee" by (rule pow2_mono [OF lt])
    finally have dE: "\<bar>d\<bar> < pow2 Ee" .
    have Ex: "pow2 Ee \<le> x" unfolding EeE by (rule binade_bounds [OF assms(1)])
    have "pow2 Ee = pow2 52 * pow2 (Ee - 52)" by (simp add: pow2_add [symmetric])
    then have Eu: "pow2 Ee = of_int (2 ^ 52) * ulp x" unfolding u by (simp add: pow2_def)
    have "\<bar>x / ulp x - of_int M\<bar> \<le> \<bar>x / ulp x - of_int (2 ^ 52)\<bar>"
      unfolding M_def by (rule ties_even_nearest)
    then have "\<bar>x / ulp x - of_int M\<bar> * ulp x \<le> \<bar>x / ulp x - of_int (2 ^ 52)\<bar> * ulp x"
      using up by (simp add: mult_right_mono)
    then have "\<bar>x - of_int M * ulp x\<bar> \<le> \<bar>x - pow2 Ee\<bar>"
      unfolding Eu scaled_distance [OF up] .
    also have "\<dots> \<le> \<bar>x - d\<bar>" using dE Ex by linarith
    finally show ?thesis unfolding M_def .
  qed
qed

lemma to_double_is_double: "is_double (to_double x)"
proof -
  have z: "is_double 0"
  proof -
    have "(0::rat) = of_int 0 * pow2 0 \<and> \<bar>0::int\<bar> < 2 ^ 53 \<and> (- 1074::int) \<le> 0" by simp
    then show ?thesis unfolding is_double_def by blast
  qed
  show ?thesis
  proof (cases "x = 0")
    case True
    then show ?thesis using z by (simp add: to_double_def)
  next
    case False
    show ?thesis
    proof (cases "0 < x")
      case True
      then show ?thesis using to_double_pos_is_double [OF True] by (simp add: to_double_def)
    next
      case neg: False
      then have p: "0 < - x" using False by simp
      have "to_double x = - (of_int (ties_even (- x / ulp (- x))) * ulp (- x))"
        using neg False by (simp add: to_double_def)
      then show ?thesis using is_double_neg [OF to_double_pos_is_double [OF p]] by simp
    qed
  qed
qed

lemma to_double_nearest:
  assumes "is_double d"
  shows "\<bar>x - to_double x\<bar> \<le> \<bar>x - d\<bar>"
proof (cases "x = 0")
  case True
  then show ?thesis by (simp add: to_double_def)
next
  case False
  show ?thesis
  proof (cases "0 < x")
    case True
    then show ?thesis using to_double_pos_nearest [OF True assms] by (simp add: to_double_def)
  next
    case neg: False
    then have p: "0 < - x" using False by simp
    have t: "to_double x = - (of_int (ties_even (- x / ulp (- x))) * ulp (- x))"
      using neg False by (simp add: to_double_def)
    have "\<bar>- x - of_int (ties_even (- x / ulp (- x))) * ulp (- x)\<bar> \<le> \<bar>- x - (- d)\<bar>"
      by (rule to_double_pos_nearest [OF p is_double_neg [OF assms]])
    then show ?thesis unfolding t by (simp add: abs_minus_commute)
  qed
qed

lemma to_double_exact: "is_double d \<Longrightarrow> to_double d = d"
  using to_double_nearest [of d d] by simp

lemma to_double_mono:
  assumes "x \<le> y"
  shows "to_double x \<le> to_double y"
proof (rule ccontr)
  assume "\<not> to_double x \<le> to_double y"
  then have lt: "to_double y < to_double x" by simp
  have a: "\<bar>x - to_double x\<bar> \<le> \<bar>x - to_double y\<bar>"
    by (rule to_double_nearest [OF to_double_is_double])
  have b: "\<bar>y - to_double y\<bar> \<le> \<bar>y - to_double x\<bar>"
    by (rule to_double_nearest [OF to_double_is_double])
  have "x = y" using a b lt assms by linarith
  then show False using lt by simp
qed

text \<open>The double nearest to one tenth, and two products that fall just below a tie of
  \<open>Math.round\<close>: 23 images of 40 with a description give 57 percent, and the mean of 6/20
  and 7/20, times 20, gives 6.\<close>

lemma double_examples:
  "to_double (1 / 10) = 3602879701896397 / 36028797018963968"
  "fmul (fdiv 23 40) 100 < 115 / 2" "math_round (fmul (fdiv 23 40) 100) = 57"
  "math_round (fmul (fdiv (fadd (fdiv 6 20) (fdiv 7 20)) 2) 20) = 6"
  by code_simp+

section \<open>Properties of the scoring engine\<close>

lemma is_double_int: "\<bar>k\<bar> < 2 ^ 53 \<Longrightarrow> is_double (of_int k)"
proof -
  assume "\<bar>k\<bar> < 2 ^ 53"
  then have "(of_int k :: rat) = of_int k * pow2 0 \<and> \<bar>k\<bar> < 2 ^ 53 \<and> (- 1074 :: int) \<le> 0"
    by (simp add: pow2_def)
  then show ?thesis unfolding is_double_def by blast
qed

lemma small_doubles: "is_double 0" "is_double 1" "is_double 2" "is_double 20"
  using is_double_int [of 0] is_double_int [of 1] is_double_int [of 2] is_double_int [of 20]
  by simp_all

lemma to_double_between:
  assumes "is_double lo" "is_double hi" "lo \<le> x" "x \<le> hi"
  shows "lo \<le> to_double x" "to_double x \<le> hi"
  using to_double_mono [OF assms(3)] to_double_mono [OF assms(4)]
    to_double_exact [OF assms(1)] to_double_exact [OF assms(2)]
  by simp_all

lemma to_double_upto:
  assumes "is_double hi" "x \<le> hi"
  shows "to_double x \<le> hi"
  using to_double_mono [OF assms(2)] to_double_exact [OF assms(1)] by simp

lemma math_round_bounds:
  assumes "0 \<le> x" "x \<le> 20"
  shows "0 \<le> math_round x" "math_round x \<le> 20"
proof -
  have "(0::rat) \<le> x + 1 / 2" using assms by simp
  then show "0 \<le> math_round x" unfolding math_round_def by simp
  have "x + 1 / 2 < 21" using assms by simp
  then have "\<lfloor>x + 1 / 2\<rfloor> < 21" by (simp add: floor_less_iff)
  then show "math_round x \<le> 20" unfolding math_round_def by simp
qed

lemma math_round_upper:
  assumes "x \<le> 20"
  shows "math_round x \<le> 20"
proof -
  have "x + 1 / 2 < 21" using assms by simp
  then have "\<lfloor>x + 1 / 2\<rfloor> < 21" by (simp add: floor_less_iff)
  then show "math_round x \<le> 20" unfolding math_round_def by simp
qed

lemma fdiv_fraction:
  fixes p n :: nat
  assumes "p \<le> n" "0 < n"
  shows "0 \<le> fdiv (of_nat p) (of_nat n)" "fdiv (of_nat p) (of_nat n) \<le> 1"
proof -
  have "(0::rat) \<le> of_nat p / of_nat n" "(of_nat p / of_nat n :: rat) \<le> 1"
    using assms by simp_all
  then show "0 \<le> fdiv (of_nat p) (of_nat n)" "fdiv (of_nat p) (of_nat n) \<le> 1"
    unfolding fdiv_def using to_double_between [OF small_doubles(1) small_doubles(2)] by blast+
qed

lemma fmul_20:
  assumes "0 \<le> a" "a \<le> 1"
  shows "0 \<le> fmul a 20" "fmul a 20 \<le> 20"
proof -
  have "0 \<le> a * 20" "a * 20 \<le> 20" using assms by simp_all
  then show "0 \<le> fmul a 20" "fmul a 20 \<le> 20"
    unfolding fmul_def using to_double_between [OF small_doubles(1) small_doubles(4)] by blast+
qed

lemma fmul_20_upper:
  assumes "a \<le> 1"
  shows "fmul a 20 \<le> 20"
proof -
  have "a * 20 \<le> 20" using assms by simp
  then show ?thesis unfolding fmul_def by (rule to_double_upto [OF small_doubles(4)])
qed

lemma fmul_nonneg: "0 \<le> a \<Longrightarrow> 0 \<le> b \<Longrightarrow> 0 \<le> fmul a b"
  unfolding fmul_def by (rule to_double_nonneg) simp

lemma fadd_nonneg: "0 \<le> a \<Longrightarrow> 0 \<le> b \<Longrightarrow> 0 \<le> fadd a b"
  unfolding fadd_def by (rule to_double_nonneg) simp

lemma fsub_upto_20:
  assumes "a \<le> 20" "0 \<le> d"
  shows "fsub a d \<le> 20"
proof -
  have "a - d \<le> 20" using assms by simp
  then show ?thesis unfolding fsub_def by (rule to_double_upto [OF small_doubles(4)])
qed

lemma meta_loop_le: "fst acc \<le> 20 \<Longrightarrow> fst (foldl meta_step acc ps) \<le> 20"
proof (induction ps arbitrary: acc)
  case Nil
  then show ?case by simp
next
  case (Cons p ps)
  have "fst (meta_step acc p) \<le> 20"
    using Cons.prems by (simp add: meta_step_def fsub_upto_20 fmul_nonneg)
  then show ?case using Cons.IH [of "meta_step acc p"] by simp
qed

lemma uncovered_loop_le: "fst acc \<le> 20 \<Longrightarrow> fst (foldl uncovered_step acc ps) \<le> 20"
proof (induction ps arbitrary: acc)
  case Nil
  then show ?case by simp
next
  case (Cons p ps)
  have "fst (uncovered_step acc p) \<le> 20"
    using Cons.prems by (simp add: uncovered_step_def fsub_upto_20)
  then show ?case using Cons.IH [of "uncovered_step acc p"] by simp
qed

lemma heading_loop_le: "fst acc \<le> 20 \<Longrightarrow> fst (foldl heading_score_step acc ps) \<le> 20"
proof (induction ps arbitrary: acc)
  case Nil
  then show ?case by simp
next
  case (Cons p ps)
  have "fst (heading_score_step acc p) \<le> 20"
    using Cons.prems by (simp add: heading_score_step_def fsub_upto_20 fmul_nonneg)
  then show ?case using Cons.IH [of "heading_score_step acc p"] by simp
qed

lemma image_loop_nonneg:
  "0 \<le> fst acc \<Longrightarrow> 0 \<le> fst (snd acc) \<Longrightarrow>
   0 \<le> fst (foldl image_step acc ps) \<and> 0 \<le> fst (snd (foldl image_step acc ps))"
proof (induction ps arbitrary: acc)
  case Nil
  then show ?case by simp
next
  case (Cons p ps)
  have "0 \<le> fst (image_step acc p)" "0 \<le> fst (snd (image_step acc p))"
    using Cons.prems by (auto simp: image_step_def split: prod.splits)
  then show ?case using Cons.IH [of "image_step acc p"] by simp
qed

lemma social_loop_counts:
  "fst (snd (foldl social_step acc ps)) = fst (snd acc) + length (filter has_og ps)
   \<and> fst (snd (snd (foldl social_step acc ps))) = fst (snd (snd acc)) + length (filter has_twitter ps)"
proof (induction ps arbitrary: acc)
  case Nil
  then show ?case by simp
next
  case (Cons p ps)
  have "fst (snd (social_step acc p)) = fst (snd acc) + (if has_og p then 1 else 0)"
       "fst (snd (snd (social_step acc p))) = fst (snd (snd acc)) + (if has_twitter p then 1 else 0)"
    by (auto simp: social_step_def has_og_def has_twitter_def Let_def split: prod.splits)
  then show ?case using Cons.IH [of "social_step acc p"] by simp
qed

lemma social_score_stored:
  assumes "0 < total_pages res"
  shows "score (socialSharing (categoryScores (calculateCategoryScores res))) =
           max 0 (ratio_score (length (filter has_og (pagesWithSEO res)))
                              (length (filter has_twitter (pagesWithSEO res)))
                              (total_pages res))"
  using assms
  by (auto simp: calculateCategoryScores_def Let_def total_pages_def ratio_score_def social_loop_counts)

lemma ratio_score_bounds:
  assumes "og \<le> n" "tw \<le> n" "0 < n"
  shows "0 \<le> ratio_score og tw n" "ratio_score og tw n \<le> 20"
proof -
  define a b where "a = fdiv (of_nat og) (of_nat n)" and "b = fdiv (of_nat tw) (of_nat n)"
  have a: "0 \<le> a" "a \<le> 1" unfolding a_def by (rule fdiv_fraction [OF assms(1) assms(3)])+
  have b: "0 \<le> b" "b \<le> 1" unfolding b_def by (rule fdiv_fraction [OF assms(2) assms(3)])+
  have "0 \<le> a + b" "a + b \<le> 2" using a b by simp_all
  then have s: "0 \<le> fadd a b" "fadd a b \<le> 2"
    unfolding fadd_def using to_double_between [OF small_doubles(1) small_doubles(3)] by blast+
  then have "0 \<le> fadd a b / 2" "fadd a b / 2 \<le> 1" by simp_all
  then have h: "0 \<le> fdiv (fadd a b) 2" "fdiv (fadd a b) 2 \<le> 1"
    unfolding fdiv_def using to_double_between [OF small_doubles(1) small_doubles(2)] by blast+
  note m = fmul_20 [OF h]
  have "0 \<le> math_round (fmul (fdiv (fadd a b) 2) 20)" "math_round (fmul (fdiv (fadd a b) 2) 20) \<le> 20"
    using math_round_bounds [OF m] by blast+
  then show "0 \<le> ratio_score og tw n" "ratio_score og tw n \<le> 20"
    unfolding ratio_score_def a_def b_def by simp_all
qed

lemma meta_score_stored:
  assumes "0 < total_pages res"
  shows "score (metaTags (categoryScores (calculateCategoryScores res))) =
           max 0 (fst (foldl uncovered_step
                        (foldl meta_step (20, category_issues (metaTags (categoryScores res)))
                           (pagesWithSEO res))
                        (pagesWithoutSEO res)))"
  using assms by (auto simp: calculateCategoryScores_def Let_def total_pages_def)

lemma meta_score_range:
  assumes "0 < total_pages res"
  shows "0 \<le> score (metaTags (categoryScores (calculateCategoryScores res)))"
    and "score (metaTags (categoryScores (calculateCategoryScores res))) \<le> 20"
proof -
  let ?m1 = "foldl meta_step (20, category_issues (metaTags (categoryScores res))) (pagesWithSEO res)"
  have "fst ?m1 \<le> 20" by (rule meta_loop_le) simp
  then have le: "fst (foldl uncovered_step ?m1 (pagesWithoutSEO res)) \<le> 20"
    by (rule uncovered_loop_le)
  show "0 \<le> score (metaTags (categoryScores (calculateCategoryScores res)))"
    unfolding meta_score_stored [OF assms] by simp
  show "score (metaTags (categoryScores (calculateCategoryScores res))) \<le> 20"
    unfolding meta_score_stored [OF assms] using le by simp
qed

lemma technical_score_range:
  assumes "0 < total_pages res"
  shows "0 \<le> score (technicalSEO (categoryScores (calculateCategoryScores res)))"
    and "score (technicalSEO (categoryScores (calculateCategoryScores res))) \<le> 20"
proof -
  let ?n = "length (filter (\<lambda>page. \<not> canonical (page_metaTags page)) (pagesWithSEO res))"
  let ?t1 = "foldl heading_score_step
               (fsub 20 (fmul (of_nat ?n) 1), category_issues (technicalSEO (categoryScores res)))
               (pagesWithSEO res)"
  have "fsub 20 (fmul (of_nat ?n) 1) \<le> 20"
    by (rule fsub_upto_20) (simp_all add: fmul_nonneg)
  then have t1: "fst ?t1 \<le> 20" by (intro heading_loop_le) simp
  have r: "fsub (fst ?t1) 3 \<le> 20" by (rule fsub_upto_20 [OF t1]) simp
  have m: "(0::rat) \<le> min 3 (fmul (of_nat (length (missingFromSitemap res))) (1 / 2))"
    by (simp add: fmul_nonneg)
  have s1: "fsub (fst ?t1) (min 3 (fmul (of_nat (length (missingFromSitemap res))) (1 / 2))) \<le> 20"
    by (rule fsub_upto_20 [OF t1 m])
  have s2: "fsub (fsub (fst ?t1) 3) (min 3 (fmul (of_nat (length (missingFromSitemap res))) (1 / 2))) \<le> 20"
    by (rule fsub_upto_20 [OF r m])
  have "\<exists>t3. score (technicalSEO (categoryScores (calculateCategoryScores res))) = max 0 t3 \<and> t3 \<le> 20"
    using assms t1 r s1 s2 by (auto simp: calculateCategoryScores_def Let_def total_pages_def)
  then obtain t3 where t3: "score (technicalSEO (categoryScores (calculateCategoryScores res))) = max 0 t3"
    "t3 \<le> 20" by blast
  show "0 \<le> score (technicalSEO (categoryScores (calculateCategoryScores res)))"
    unfolding t3(1) by simp
  show "score (technicalSEO (categoryScores (calculateCategoryScores res))) \<le> 20"
    unfolding t3(1) using t3(2) by simp
qed

lemma structured_score_range:
  assumes "0 < total_pages res"
  shows "0 \<le> score (structuredData (categoryScores (calculateCategoryScores res)))"
    and "score (structuredData (categoryScores (calculateCategoryScores res))) \<le> 20"
proof -
  let ?p = "length (filter (\<lambda>page. length (schemas page) > 0) (pagesWithSEO res))"
  let ?x = "fmul (fdiv (of_nat ?p) (of_nat (total_pages res))) 20"
  have le: "?p \<le> total_pages res"
    by (rule le_trans [OF length_filter_le]) (simp add: total_pages_def)
  note f = fdiv_fraction [OF le assms]
  note x = fmul_20 [OF f]
  have r: "0 \<le> math_round ?x" "math_round ?x \<le> 20"
    using math_round_bounds [OF x] by blast+
  have s: "score (structuredData (categoryScores (calculateCategoryScores res))) =
        (if list_ex (\<lambda>page. list_ex is_rich_schema (schemas page)) (pagesWithSEO res)
         then min 20 (fadd (of_int (math_round ?x)) 2) else of_int (math_round ?x))"
    using assms by (auto simp: calculateCategoryScores_def Let_def total_pages_def)
  have b: "0 \<le> fadd (of_int (math_round ?x)) 2"
  proof (rule fadd_nonneg)
    show "(0::rat) \<le> of_int (math_round ?x)" using r(1) by simp
    show "(0::rat) \<le> 2" by simp
  qed
  show "0 \<le> score (structuredData (categoryScores (calculateCategoryScores res)))"
    unfolding s using r b by simp
  show "score (structuredData (categoryScores (calculateCategoryScores res))) \<le> 20"
    unfolding s using r by simp
qed

lemma images_score_range:
  assumes "0 < total_pages res"
  shows "0 \<le> score (imagesMedia (categoryScores (calculateCategoryScores res)))"
    and "score (imagesMedia (categoryScores (calculateCategoryScores res))) \<le> 20"
proof -
  let ?img = "foldl image_step (0, 0, category_issues (imagesMedia (categoryScores res))) (pagesWithSEO res)"
  let ?t = "fst ?img"
  let ?w = "fst (snd ?img)"
  have nn: "0 \<le> ?t" "0 \<le> ?w"
    using image_loop_nonneg [of "(0, 0, category_issues (imagesMedia (categoryScores res)))" "pagesWithSEO res"]
    by simp_all
  have s: "score (imagesMedia (categoryScores (calculateCategoryScores res))) =
        max 0 (if ?t > 0 then of_int (math_round (fmul (fdiv (of_int (?t - ?w)) (of_int ?t)) 20)) else 20)"
    using assms by (auto simp: calculateCategoryScores_def Let_def total_pages_def)
  have up: "?t > 0 \<Longrightarrow> math_round (fmul (fdiv (of_int (?t - ?w)) (of_int ?t)) 20) \<le> 20"
  proof -
    assume pos: "?t > 0"
    have "(of_int (?t - ?w) :: rat) \<le> of_int ?t" using nn by simp
    then have "(of_int (?t - ?w) / of_int ?t :: rat) \<le> 1" using pos by (simp add: divide_le_eq)
    then have "fdiv (of_int (?t - ?w)) (of_int ?t) \<le> 1"
      unfolding fdiv_def by (rule to_double_upto [OF small_doubles(2)])
    then have "fmul (fdiv (of_int (?t - ?w)) (of_int ?t)) 20 \<le> 20" by (rule fmul_20_upper)
    then show ?thesis by (rule math_round_upper)
  qed
  show "0 \<le> score (imagesMedia (categoryScores (calculateCategoryScores res)))"
    unfolding s by simp
  show "score (imagesMedia (categoryScores (calculateCategoryScores res))) \<le> 20"
    unfolding s using up by auto
qed

lemma social_score_range:
  assumes "0 < total_pages res"
  shows "0 \<le> score (socialSharing (categoryScores (calculateCategoryScores res)))"
    and "score (socialSharing (categoryScores (calculateCategoryScores res))) \<le> 20"
proof -
  have le: "length (filter has_og (pagesWithSEO res)) \<le> total_pages res"
       "length (filter has_twitter (pagesWithSEO res)) \<le> total_pages res"
    by (rule le_trans [OF length_filter_le], simp add: total_pages_def)+
  note b = ratio_score_bounds [OF le assms]
  show "0 \<le> score (socialSharing (categoryScores (calculateCategoryScores res)))"
    unfolding social_score_stored [OF assms] by simp
  show "score (socialSharing (categoryScores (calculateCategoryScores res))) \<le> 20"
    unfolding social_score_stored [OF assms] using b by simp
qed

lemma maxScore_kept:
  "maxScore (metaTags (categoryScores (calculateCategoryScores res))) = maxScore (metaTags (categoryScores res))"
  "maxScore (technicalSEO (categoryScores (calculateCategoryScores res))) = maxScore (technicalSEO (categoryScores res))"
  "maxScore (structuredData (categoryScores (calculateCategoryScores res))) = maxScore (structuredData (categoryScores res))"
  "maxScore (imagesMedia (categoryScores (calculateCategoryScores res))) = maxScore (imagesMedia (categoryScores res))"
  "maxScore (socialSharing (categoryScores (calculateCategoryScores res))) = maxScore (socialSharing (categoryScores res))"
  by (simp_all add: calculateCategoryScores_def Let_def)

lemma no_pages_unchanged: "total_pages res = 0 \<Longrightarrow> calculateCategoryScores res = res"
  by (simp add: calculateCategoryScores_def Let_def total_pages_def)

lemma initial_scores:
  "score (metaTags initial_categoryScores) = 0" "maxScore (metaTags initial_categoryScores) = 20"
  "score (technicalSEO initial_categoryScores) = 0" "maxScore (technicalSEO initial_categoryScores) = 20"
  "score (structuredData initial_categoryScores) = 0" "maxScore (structuredData initial_categoryScores) = 20"
  "score (imagesMedia initial_categoryScores) = 0" "maxScore (imagesMedia initial_categoryScores) = 20"
  "score (socialSharing initial_categoryScores) = 0" "maxScore (socialSharing initial_categoryScores) = 20"
  by (simp_all add: initial_categoryScores_def initial_category_def)

text \<open>
  Claim C2. When \<open>calculateCategoryScores\<close> runs on results whose category scores are as
  declared (score 0 and maximum 20 each), whatever the pages, the robots verdict and the
  sitemap list, each of the five category scores afterwards lies between 0 and its
  maximum, each maximum is 20, and the five maxima add up to 100.
\<close>

theorem category_scores_in_range:
  assumes "categoryScores res = initial_categoryScores"
  shows "list_all (\<lambda>c. 0 \<le> score c \<and> score c \<le> maxScore c \<and> maxScore c = 20)
           [metaTags (categoryScores (calculateCategoryScores res)),
            technicalSEO (categoryScores (calculateCategoryScores res)),
            structuredData (categoryScores (calculateCategoryScores res)),
            imagesMedia (categoryScores (calculateCategoryScores res)),
            socialSharing (categoryScores (calculateCategoryScores res))]
       \<and> maxScore (metaTags (categoryScores (calculateCategoryScores res)))
         + maxScore (technicalSEO (categoryScores (calculateCategoryScores res)))
         + maxScore (structuredData (categoryScores (calculateCategoryScores res)))
         + maxScore (imagesMedia (categoryScores (calculateCategoryScores res)))
         + maxScore (socialSharing (categoryScores (calculateCategoryScores res))) = 100"
proof (cases "total_pages res = 0")
  case True
  show ?thesis
    unfolding no_pages_unchanged [OF True] assms by (simp add: initial_scores)
next
  case False
  then have pos: "0 < total_pages res" by simp
  note ranges = meta_score_range [OF pos] technical_score_range [OF pos]
    structured_score_range [OF pos] images_score_range [OF pos] social_score_range [OF pos]
  show ?thesis
    using ranges by (simp add: maxScore_kept assms initial_scores)
qed

theorem category_scores_in_range_witness:
  "list_all (\<lambda>c. 0 \<le> score c \<and> score c \<le> maxScore c \<and> maxScore c = 20)
     [metaTags (categoryScores (calculateCategoryScores example_results)),
      technicalSEO (categoryScores (calculateCategoryScores example_results)),
      structuredData (categoryScores (calculateCategoryScores example_results)),
      imagesMedia (categoryScores (calculateCategoryScores example_results)),
      socialSharing (categoryScores (calculateCategoryScores example_results))]
   \<and> score (metaTags (categoryScores (calculateCategoryScores example_results))) = 29 / 2"
proof -
  have i: "categoryScores example_results = initial_categoryScores"
    by (simp add: example_results_def initial_results_def)
  have m: "score (metaTags (categoryScores (calculateCategoryScores example_results))) = 29 / 2"
    by code_simp
  show ?thesis using category_scores_in_range [OF i] m by simp
qed

lemma social_issues_loop:
  "snd (snd (snd (foldl social_step acc ps)))
   = snd (snd (snd acc)) @ map social_line (filter social_flagged ps)"
proof (induction ps arbitrary: acc)
  case Nil
  then show ?case by simp
next
  case (Cons p ps)
  have "snd (snd (snd (social_step acc p)))
        = snd (snd (snd acc)) @ (if social_flagged p then [social_line p] else [])"
    by (auto simp: social_step_def social_flagged_def social_line_def Let_def split: prod.splits)
  then show ?case using Cons.IH [of "social_step acc p"] by simp
qed

lemma social_issues_stored:
  assumes "0 < total_pages res"
  shows "category_issues (socialSharing (categoryScores (calculateCategoryScores res)))
         = category_issues (socialSharing (categoryScores res))
           @ map social_line (filter social_flagged (pagesWithSEO res))"
  using assms
  by (auto simp: calculateCategoryScores_def Let_def total_pages_def social_issues_loop)

lemma with_issues_thresholds:
  "has_og (with_issues f page) = has_og page"
  "has_twitter (with_issues f page) = has_twitter page"
  by (simp_all add: with_issues_def has_og_def has_twitter_def)

text \<open>
  Claim C3, as stated, at a run on one document without coverage whose text declares
  four open-graph and four card-service tags: every document has at least four fields of
  each kind, so the ratio-based value over the documents is 20, and the stored score is 0.
\<close>

theorem social_score_counterexample:
  "checkPageSEO no_sandbox ''promo.vue'' social_only_doc = (Some social_only_record, [])
   \<and> aggregate initial_results [Some social_only_record] = Inr social_only_results
   \<and> has_og social_only_record \<and> has_twitter social_only_record
   \<and> all_documents_social_score social_only_results = 20
   \<and> score (socialSharing (categoryScores (calculateCategoryScores social_only_results))) = 0"
proof -
  have a: "checkPageSEO no_sandbox ''promo.vue'' social_only_doc = (Some social_only_record, [])"
    by code_simp
  have b: "aggregate initial_results [Some social_only_record] = Inr social_only_results"
    by (simp add: aggregate_step_def social_only_results_def social_only_record_def
        initial_results_def)
  have c: "has_og social_only_record" "has_twitter social_only_record"
    by code_simp+
  have d: "all_documents_social_score social_only_results = 20"
    by code_simp
  have e: "score (socialSharing (categoryScores (calculateCategoryScores social_only_results))) = 0"
    by code_simp
  show ?thesis using a b c d e by simp
qed

text \<open>
  Claim C3, amended. Whenever at least one document was analyzed, the stored
  social-sharing score is the ratio-based value in which each fraction is the number of
  documents with coverage that have at least four fields of the kind, over the number of
  all documents, and in which every operation is the one of double-precision arithmetic:
  the two divisions, the sum, the halving and the product by 20 each round to the nearest
  double, then \<open>Math.round\<close> is applied and the result is floored at 0. The subtraction of
  1 per page with an open-graph or card-service issue does not reach the stored score:
  the score is the same whatever issue lists the records carry. Those pages only add
  their line to the issue list of the category.
\<close>

theorem social_score_is_ratio:
  assumes "0 < total_pages res"
  shows "score (socialSharing (categoryScores (calculateCategoryScores res))) =
           max 0 (of_int (math_round
             (fmul (fdiv (fadd (fdiv (of_nat (length (filter has_og (pagesWithSEO res))))
                                     (of_nat (total_pages res)))
                               (fdiv (of_nat (length (filter has_twitter (pagesWithSEO res))))
                                     (of_nat (total_pages res))))
                         2)
                   20)))
       \<and> score (socialSharing (categoryScores (calculateCategoryScores
            (res \<lparr> pagesWithSEO := map (with_issues f) (pagesWithSEO res) \<rparr>))))
         = score (socialSharing (categoryScores (calculateCategoryScores res)))
       \<and> category_issues (socialSharing (categoryScores (calculateCategoryScores res)))
         = category_issues (socialSharing (categoryScores res))
           @ map social_line (filter social_flagged (pagesWithSEO res))"
proof -
  let ?res' = "res \<lparr> pagesWithSEO := map (with_issues f) (pagesWithSEO res) \<rparr>"
  have t: "total_pages ?res' = total_pages res" by (simp add: total_pages_def)
  then have pos': "0 < total_pages ?res'" using assms by simp
  have same: "score (socialSharing (categoryScores (calculateCategoryScores ?res')))
            = score (socialSharing (categoryScores (calculateCategoryScores res)))"
    unfolding social_score_stored [OF pos'] social_score_stored [OF assms] t
    by (simp add: filter_map comp_def with_issues_thresholds)
  show ?thesis
    using social_score_stored [OF assms] same social_issues_stored [OF assms]
    by (simp add: ratio_score_def)
qed

text \<open>Two runs: the three documents of \<open>example_results\<close>, and twenty documents of which
  six have the open-graph fields and seven the card-service fields. For the second the
  exact value of the formula is 6.5, which \<open>Math.round\<close> would take to 7; the product
  computed on doubles is just below 6.5 and the stored score is 6.\<close>

theorem social_score_is_ratio_witness:
  "score (socialSharing (categoryScores (calculateCategoryScores example_results))) = 7
   \<and> score (socialSharing (categoryScores (calculateCategoryScores
        (example_results \<lparr> pagesWithSEO := map (with_issues (\<lambda>page. [])) (pagesWithSEO example_results) \<rparr>)))) = 7
   \<and> category_issues (socialSharing (categoryScores (calculateCategoryScores example_results)))
     = [''about: Missing Open Graph tags: title, description, image, url, ''
        @ ''Missing Twitter Card tags: card, title, description, image'']
   \<and> length (filter has_og (pagesWithSEO twenty_results)) = 6
   \<and> length (filter has_twitter (pagesWithSEO twenty_results)) = 7
   \<and> total_pages twenty_results = 20
   \<and> math_round ((6 / 20 + 7 / 20) / 2 * 20) = 7
   \<and> fmul (fdiv (fadd (fdiv 6 20) (fdiv 7 20)) 2) 20 < 13 / 2
   \<and> score (socialSharing (categoryScores (calculateCategoryScores twenty_results))) = 6"
proof -
  have pos: "0 < total_pages example_results" by code_simp
  have v: "max 0 (rat_of_int (math_round
             (fmul (fdiv (fadd (fdiv (of_nat (length (filter has_og (pagesWithSEO example_results))))
                                     (of_nat (total_pages example_results)))
                               (fdiv (of_nat (length (filter has_twitter (pagesWithSEO example_results))))
                                     (of_nat (total_pages example_results))))
                         2)
                   20))) = 7"
    by code_simp
  have l: "category_issues (socialSharing (categoryScores example_results))
           @ map social_line (filter social_flagged (pagesWithSEO example_results))
         = [''about: Missing Open Graph tags: title, description, image, url, ''
            @ ''Missing Twitter Card tags: card, title, description, image'']"
    by code_simp
  have pos20: "0 < total_pages twenty_results" by code_simp
  have c: "length (filter has_og (pagesWithSEO twenty_results)) = 6"
    "length (filter has_twitter (pagesWithSEO twenty_results)) = 7"
    "total_pages twenty_results = 20"
    by code_simp+
  have e: "math_round ((6 / 20 + 7 / 20) / 2 * 20) = 7"
    by code_simp
  have b: "fmul (fdiv (fadd (fdiv 6 20) (fdiv 7 20)) 2) 20 < 13 / 2"
    by code_simp
  have w: "max 0 (rat_of_int (math_round (fmul (fdiv (fadd (fdiv 6 20) (fdiv 7 20)) 2) 20))) = 6"
    by code_simp
  have s20: "score (socialSharing (categoryScores (calculateCategoryScores twenty_results))) = 6"
    using social_score_is_ratio [OF pos20, of "\<lambda>page. []"] w unfolding c by simp
  show ?thesis
    using social_score_is_ratio [OF pos, of "\<lambda>page. []"] v l c e b s20 by simp
qed

section \<open>Properties of the metadata normalizer\<close>

lemma title_filter_title_check:
  "filter is_title_length_issue (title_length_check n) = title_length_check n"
  by (simp add: title_length_check_def is_title_length_issue_def)

lemma title_filter_description_check:
  "filter is_title_length_issue (description_length_check n) = []"
  by (simp add: description_length_check_def is_title_length_issue_def)

lemma description_filter_description_check:
  "filter is_description_length_issue (description_length_check n) = description_length_check n"
  by (simp add: description_length_check_def is_description_length_issue_def)

lemma description_filter_title_check:
  "filter is_description_length_issue (title_length_check n) = []"
  by (simp add: title_length_check_def is_description_length_issue_def)

lemma length_filters_missing_tags:
  "filter is_title_length_issue (missing_tags_issue ''Missing Open Graph tags: '' req ks) = []"
  "filter is_title_length_issue (missing_tags_issue ''Missing Twitter Card tags: '' req ks) = []"
  "filter is_description_length_issue (missing_tags_issue ''Missing Open Graph tags: '' req ks) = []"
  "filter is_description_length_issue (missing_tags_issue ''Missing Twitter Card tags: '' req ks) = []"
  by (simp_all add: missing_tags_issue_def Let_def is_title_length_issue_def
      is_description_length_issue_def)

lemmas length_filters = title_filter_title_check title_filter_description_check
  description_filter_description_check description_filter_title_check length_filters_missing_tags

lemma static_length_issues:
  "filter is_title_length_issue (issues (checkMetaTags_static content)) =
     (case meta_title (checkMetaTags_static content) of
        None \<Rightarrow> [] | Some t \<Rightarrow> title_length_check (length t))"
  "filter is_description_length_issue (issues (checkMetaTags_static content)) =
     (case meta_description (checkMetaTags_static content) of
        None \<Rightarrow> [] | Some d \<Rightarrow> description_length_check (length d))"
  by (auto simp: checkMetaTags_static_def Let_def length_filters
      is_title_length_issue_def is_description_length_issue_def split: option.splits)

lemma dynamic_length_issues:
  assumes "checkMetaTags_dynamic ms links = Inr mi"
  shows "filter is_title_length_issue (issues mi) =
           (case meta_title mi of None \<Rightarrow> [] | Some t \<Rightarrow> title_length_check (length t))"
    and "filter is_description_length_issue (issues mi) =
           (case meta_description mi of None \<Rightarrow> [] | Some d \<Rightarrow> description_length_check (length d))"
  using assms
  by (auto simp: checkMetaTags_dynamic_def Let_def length_filters
      is_title_length_issue_def is_description_length_issue_def split: option.splits)

lemma checkMetaTags_length_issues:
  assumes "checkMetaTags content seoOutput = Inr mi"
  shows "filter is_title_length_issue (issues mi) =
           (case meta_title mi of None \<Rightarrow> [] | Some t \<Rightarrow> title_length_check (length t))"
    and "filter is_description_length_issue (issues mi) =
           (case meta_description mi of None \<Rightarrow> [] | Some d \<Rightarrow> description_length_check (length d))"
  using assms static_length_issues [of content] dynamic_length_issues
  by (auto simp: checkMetaTags_def split: option.splits)

lemma checkMetaTags_titles:
  "checkMetaTags content None = Inr mi \<Longrightarrow>
     meta_title mi = quoted_field ''title'' content
     \<and> meta_description mi = quoted_field ''description'' content"
  by (auto simp: checkMetaTags_def checkMetaTags_static_def Let_def)

lemma first_match_skip:
  "k \<le> length s \<Longrightarrow> (\<forall>j<k. m (drop j s) = None) \<Longrightarrow> first_match m s = first_match m (drop k s)"
proof (induction k arbitrary: s)
  case 0
  then show ?case by simp
next
  case (Suc k)
  then obtain c cs where s: "s = c # cs" by (cases s) auto
  have "m (drop 0 s) = None" using Suc.prems(2) by blast
  then have here: "m (c # cs) = None" by (simp add: s)
  have rest: "\<forall>j<k. m (drop j cs) = None"
  proof (intro allI impI)
    fix j assume "j < k"
    then have "m (drop (Suc j) s) = None" using Suc.prems(2) by simp
    then show "m (drop j cs) = None" by (simp add: s)
  qed
  have "k \<le> length cs" using Suc.prems(1) by (simp add: s)
  then have "first_match m cs = first_match m (drop k cs)" using rest by (rule Suc.IH)
  then show ?case by (simp add: s here)
qed

lemma first_occurrence_Some:
  assumes "first_occurrence lit s = Some k"
  shows "k \<le> length s" "startsWith (drop k s) lit" "\<forall>j<k. \<not> startsWith (drop j s) lit"
proof -
  from assms obtain i where i: "i < length [0..<Suc (length s)]"
      "startsWith (drop ([0..<Suc (length s)] ! i) s) lit" "k = [0..<Suc (length s)] ! i"
      "\<forall>j<i. \<not> startsWith (drop ([0..<Suc (length s)] ! j) s) lit"
    unfolding first_occurrence_def find_Some_iff by blast
  have b: "i < Suc (length s)" using i(1) by simp
  then have k: "k = i" using i(3) by (simp del: upt_Suc)
  show "k \<le> length s" using b k by simp
  show "startsWith (drop k s) lit" using i(2) b k by (simp del: upt_Suc)
  show "\<forall>j<k. \<not> startsWith (drop j s) lit"
  proof (intro allI impI)
    fix j assume j: "j < k"
    then have "\<not> startsWith (drop ([0..<Suc (length s)] ! j) s) lit" using i(4) k by blast
    moreover have "[0..<Suc (length s)] ! j = j" using j b k by (simp del: upt_Suc)
    ultimately show "\<not> startsWith (drop j s) lit" by simp
  qed
qed

lemma quoted_field_at_no_literal:
  "\<not> startsWith s (key @ '':'') \<Longrightarrow> quoted_field_at key s = None"
  by (simp add: quoted_field_at_def after_literal_def)

lemma quoted_field_at_value:
  assumes "startsWith s (key @ '':'')"
    and "dropWhile is_space (drop (length key + 1) s) = q # v @ q' # rest"
    and "is_quote q" "is_quote q'" "list_all (\<lambda>c. \<not> is_quote c) v"
  shows "quoted_field_at key s = Some v"
proof -
  have v: "\<And>c. c \<in> set v \<Longrightarrow> \<not> is_quote c" using assms(5) by (simp add: list_all_iff)
  have t: "takeWhile (\<lambda>c. \<not> is_quote c) (v @ q' # rest) = v"
    using v assms(4) by (simp add: takeWhile_tail)
  have d: "dropWhile (\<lambda>c. \<not> is_quote c) (v @ q' # rest) = q' # rest"
    using v assms(4) by (simp add: dropWhile_append3)
  show ?thesis
    using assms(1,2,3,4) t d by (simp add: quoted_field_at_def after_literal_def skip_ws_def)
qed

lemma declares_quoted_field:
  assumes "declares key v content"
  shows "quoted_field key content = Some v"
proof -
  from assms obtain k where k: "first_occurrence (key @ '':'') content = Some k"
    by (auto simp: declares_def split: option.splits)
  from assms k obtain q r where qr: "dropWhile is_space (drop (k + length key + 1) content) = q # r"
    "is_quote q" "list_all (\<lambda>c. \<not> is_quote c) v" "take (length v) r = v"
    and tail: "case drop (length v) r of [] \<Rightarrow> False | q' # _ \<Rightarrow> is_quote q'"
    by (auto simp: declares_def split: list.splits)
  from tail obtain q' rest where q': "drop (length v) r = q' # rest" "is_quote q'"
    by (auto split: list.splits)
  have r: "r = v @ q' # rest"
    using append_take_drop_id [of "length v" r] qr(4) q'(1) by simp
  note occ = first_occurrence_Some [OF k]
  have dd: "drop (length key + 1) (drop k content) = drop (k + length key + 1) content"
    by (simp add: add.commute add.left_commute)
  have here: "quoted_field_at key (drop k content) = Some v"
    by (rule quoted_field_at_value [OF occ(2) _ qr(2) q'(2) qr(3)]) (simp only: dd qr(1) r)
  have before: "\<forall>j<k. quoted_field_at key (drop j content) = None"
    using occ(3) quoted_field_at_no_literal by blast
  have "first_match (quoted_field_at key) content
        = first_match (quoted_field_at key) (drop k content)"
    by (rule first_match_skip [OF occ(1) before])
  also have "\<dots> = quoted_field_at key (drop k content)"
    by (rule first_match_here) (simp add: here)
  finally show ?thesis by (simp add: quoted_field_def here)
qed

lemma checkMetaTags_reads:
  assumes "checkMetaTags content seoOutput = Inr mi"
  shows "meta_title mi = read_field ''title'' content seoOutput"
    and "meta_description mi = read_field ''description'' content seoOutput"
  using assms
  by (auto simp: checkMetaTags_def checkMetaTags_static_def checkMetaTags_dynamic_def
      read_field_def Let_def split: option.splits sum.splits)

lemma checkMetaTags_returns:
  "(\<exists>mi. checkMetaTags content seoOutput = Inr mi)
   \<longleftrightarrow> \<not> entry_without_content ''title'' seoOutput
       \<and> \<not> entry_without_content ''description'' seoOutput"
  by (auto simp: checkMetaTags_def checkMetaTags_dynamic_def entry_without_content_def Let_def
      split: option.splits)

lemma presents_read_field:
  "presents key v content seoOutput \<Longrightarrow> read_field key content seoOutput = Some v"
  by (auto simp: presents_def read_field_def declares_quoted_field split: option.splits)

lemma presents_returns:
  assumes "presents ''title'' t content seoOutput" "presents ''description'' d content seoOutput"
  shows "\<exists>mi. checkMetaTags content seoOutput = Inr mi"
  using assms
  by (auto simp: presents_def checkMetaTags_def checkMetaTags_dynamic_def Let_def
      split: option.splits)

text \<open>
  Claim C5, as stated, at a document without sandbox output whose title, between double
  quotes, has 38 characters, one of them an apostrophe, and whose description has 218
  characters: the record's title is the three characters before the apostrophe, and the
  document receives the title-length issue "too short" besides the description-length
  issue.
\<close>

theorem length_banding_counterexample:
  "length apostrophe_title = 38 \<and> length scenario_description = 218
   \<and> includes_str apostrophe_doc (''title: '' @ [CHR 0x22] @ apostrophe_title @ [CHR 0x22])
   \<and> includes_str apostrophe_doc
        (''description: '' @ [CHR 0x22] @ scenario_description @ [CHR 0x22])
   \<and> checkMetaTags apostrophe_doc None = Inr apostrophe_record
   \<and> map_option page_metaTags (fst (checkPageSEO no_sandbox ''mugs.vue'' apostrophe_doc))
     = Some apostrophe_record
   \<and> meta_title apostrophe_record = Some ''Bob''
   \<and> filter is_title_length_issue (issues apostrophe_record)
     = [''Title too short (3 chars, recommended: 50-60)'']
   \<and> filter is_description_length_issue (issues apostrophe_record)
     = [''Meta description too long (218 chars, recommended: 120-160)'']"
proof -
  have a: "length apostrophe_title = 38" "length scenario_description = 218"
    by (simp_all add: apostrophe_title_def scenario_description_def)
  have b: "includes_str apostrophe_doc (''title: '' @ [CHR 0x22] @ apostrophe_title @ [CHR 0x22])"
    "includes_str apostrophe_doc (''description: '' @ [CHR 0x22] @ scenario_description @ [CHR 0x22])"
    by code_simp+
  have c: "checkMetaTags apostrophe_doc None = Inr apostrophe_record"
    by code_simp
  have d: "map_option page_metaTags (fst (checkPageSEO no_sandbox ''mugs.vue'' apostrophe_doc))
     = Some apostrophe_record"
    by code_simp
  have e: "meta_title apostrophe_record = Some ''Bob''"
    "filter is_title_length_issue (issues apostrophe_record)
     = [''Title too short (3 chars, recommended: 50-60)'']"
    "filter is_description_length_issue (issues apostrophe_record)
     = [''Meta description too long (218 chars, recommended: 120-160)'']"
    by (simp_all add: apostrophe_record_def is_title_length_issue_def
        is_description_length_issue_def)
  show ?thesis using a b c d e by simp
qed

text \<open>
  Claim C5, amended. \<open>checkMetaTags\<close> returns a record unless the title or the
  description entry it reads from a sandbox output has no content. The title and the
  description of the record are the values it reads from its input: with the \<open>meta\<close> array of a sandbox
  output, the content of the first title and of the first description entry; without it,
  the text between the first quote character after \<open>title:\<close>, respectively
  \<open>description:\<close>, and the next quote character of any of the three kinds. The issues
  that report a title length are decided by the length of that title alone: one "too
  short" issue when the length is below 30, one "too long" issue when it is above 60,
  none otherwise or when no title was read; and in the same way for the description with
  the thresholds 120 and 160. In particular, when the input presents a title of length
  38 and a description of length 218 (as the contents of the first title and description
  entries of the \<open>meta\<close> array, or, without the array, as the first quoted \<open>title:\<close> and
  \<open>description:\<close> fields of the text, neither value containing a quote character),
  \<open>checkMetaTags\<close> returns a record with this title and this description, with no
  title-length issue and with exactly one description-length issue, which says "too
  long".
\<close>

theorem length_banding:
  "((\<exists>mi. checkMetaTags content seoOutput = Inr mi)
      \<longleftrightarrow> \<not> entry_without_content ''title'' seoOutput
          \<and> \<not> entry_without_content ''description'' seoOutput)
   \<and> (\<forall>mi. checkMetaTags content seoOutput = Inr mi \<longrightarrow>
      meta_title mi = read_field ''title'' content seoOutput
      \<and> meta_description mi = read_field ''description'' content seoOutput
      \<and> filter is_title_length_issue (issues mi) =
          (case read_field ''title'' content seoOutput of
             None \<Rightarrow> []
           | Some t \<Rightarrow>
               if length t < 30
               then [''Title too short ('' @ string_of_nat (length t) @ '' chars, recommended: 50-60)'']
               else if length t > 60
               then [''Title too long ('' @ string_of_nat (length t) @ '' chars, recommended: 50-60)'']
               else [])
      \<and> filter is_description_length_issue (issues mi) =
          (case read_field ''description'' content seoOutput of
             None \<Rightarrow> []
           | Some d \<Rightarrow>
               if length d < 120
               then [''Meta description too short ('' @ string_of_nat (length d)
                     @ '' chars, recommended: 120-160)'']
               else if length d > 160
               then [''Meta description too long ('' @ string_of_nat (length d)
                     @ '' chars, recommended: 120-160)'']
               else []))
   \<and> (\<forall>t d. presents ''title'' t content seoOutput \<and> length t = 38
            \<and> presents ''description'' d content seoOutput \<and> length d = 218 \<longrightarrow>
          (\<exists>mi. checkMetaTags content seoOutput = Inr mi
             \<and> meta_title mi = Some t \<and> meta_description mi = Some d
             \<and> filter is_title_length_issue (issues mi) = []
             \<and> filter is_description_length_issue (issues mi)
               = [''Meta description too long (218 chars, recommended: 120-160)'']))"
proof (intro conjI allI impI)
  show "(\<exists>mi. checkMetaTags content seoOutput = Inr mi)
      \<longleftrightarrow> \<not> entry_without_content ''title'' seoOutput
          \<and> \<not> entry_without_content ''description'' seoOutput"
    by (rule checkMetaTags_returns)
next
  fix mi assume r: "checkMetaTags content seoOutput = Inr mi"
  note reads = checkMetaTags_reads [OF r]
  note l = checkMetaTags_length_issues [OF r]
  show "meta_title mi = read_field ''title'' content seoOutput" by (rule reads(1))
  show "meta_description mi = read_field ''description'' content seoOutput" by (rule reads(2))
  show "filter is_title_length_issue (issues mi) =
          (case read_field ''title'' content seoOutput of
             None \<Rightarrow> []
           | Some t \<Rightarrow>
               if length t < 30
               then [''Title too short ('' @ string_of_nat (length t) @ '' chars, recommended: 50-60)'']
               else if length t > 60
               then [''Title too long ('' @ string_of_nat (length t) @ '' chars, recommended: 50-60)'']
               else [])"
    unfolding l(1) reads(1) by (simp add: title_length_check_def split: option.splits)
  show "filter is_description_length_issue (issues mi) =
          (case read_field ''description'' content seoOutput of
             None \<Rightarrow> []
           | Some d \<Rightarrow>
               if length d < 120
               then [''Meta description too short ('' @ string_of_nat (length d)
                     @ '' chars, recommended: 120-160)'']
               else if length d > 160
               then [''Meta description too long ('' @ string_of_nat (length d)
                     @ '' chars, recommended: 120-160)'']
               else [])"
    unfolding l(2) reads(2) by (simp add: description_length_check_def split: option.splits)
next
  fix t d
  assume a: "presents ''title'' t content seoOutput \<and> length t = 38
             \<and> presents ''description'' d content seoOutput \<and> length d = 218"
  then obtain mi where r: "checkMetaTags content seoOutput = Inr mi"
    using presents_returns by blast
  have n: "string_of_nat 218 = ''218''"
    by (simp add: string_of_nat.simps digit_char_def)
  have t: "meta_title mi = Some t" and d: "meta_description mi = Some d"
    using checkMetaTags_reads [OF r] a presents_read_field by simp_all
  have "filter is_title_length_issue (issues mi) = []"
    unfolding checkMetaTags_length_issues(1) [OF r] t using a
    by (simp add: title_length_check_def)
  moreover have "filter is_description_length_issue (issues mi)
               = [''Meta description too long (218 chars, recommended: 120-160)'']"
    unfolding checkMetaTags_length_issues(2) [OF r] d using a
    by (simp add: description_length_check_def n)
  ultimately show "\<exists>mi. checkMetaTags content seoOutput = Inr mi
             \<and> meta_title mi = Some t \<and> meta_description mi = Some d
             \<and> filter is_title_length_issue (issues mi) = []
             \<and> filter is_description_length_issue (issues mi)
               = [''Meta description too long (218 chars, recommended: 120-160)'']"
    using r t d by blast
qed

text \<open>The scenario without sandbox output and with it, and a document with a title of
  four characters and no description.\<close>

lemma scenario_lengths: "length scenario_title = 38" "length scenario_description = 218"
  by (simp_all add: scenario_title_def scenario_description_def)

lemma scenario_presents:
  "presents ''title'' scenario_title scenario_doc None"
  "presents ''description'' scenario_description scenario_doc None"
  "presents ''title'' scenario_title scenario_doc (Some scenario_output)"
  "presents ''description'' scenario_description scenario_doc (Some scenario_output)"
  by code_simp+

lemma scenario_records:
  "checkMetaTags scenario_doc None = Inr (checkMetaTags_static scenario_doc)"
  "checkMetaTags scenario_doc (Some scenario_output) = Inr scenario_dynamic_record"
  "checkMetaTags home_doc None = Inr (generated_metaTags ''Home'' (Some ''/og/home.png''))"
  "read_field ''title'' home_doc None = Some ''Home''"
  "read_field ''description'' home_doc None = None"
  by code_simp+

theorem length_banding_witness:
  "meta_title (checkMetaTags_static scenario_doc) = Some scenario_title
   \<and> meta_description (checkMetaTags_static scenario_doc) = Some scenario_description
   \<and> filter is_title_length_issue (issues (checkMetaTags_static scenario_doc)) = []
   \<and> filter is_description_length_issue (issues (checkMetaTags_static scenario_doc))
     = [''Meta description too long (218 chars, recommended: 120-160)'']
   \<and> filter is_title_length_issue (issues scenario_dynamic_record) = []
   \<and> filter is_description_length_issue (issues scenario_dynamic_record)
     = [''Meta description too long (218 chars, recommended: 120-160)'']
   \<and> filter is_title_length_issue (issues (generated_metaTags ''Home'' (Some ''/og/home.png'')))
     = [''Title too short (4 chars, recommended: 50-60)'']
   \<and> filter is_description_length_issue (issues (generated_metaTags ''Home'' (Some ''/og/home.png'')))
     = []"
proof -
  note static = length_banding [of scenario_doc None]
  note dynamic = length_banding [of scenario_doc "Some scenario_output"]
  note short = length_banding [of home_doc None]
  have s: "meta_title (checkMetaTags_static scenario_doc) = Some scenario_title
     \<and> meta_description (checkMetaTags_static scenario_doc) = Some scenario_description
     \<and> filter is_title_length_issue (issues (checkMetaTags_static scenario_doc)) = []
     \<and> filter is_description_length_issue (issues (checkMetaTags_static scenario_doc))
       = [''Meta description too long (218 chars, recommended: 120-160)'']"
    using static scenario_presents(1,2) scenario_lengths scenario_records(1) by auto
  have d: "filter is_title_length_issue (issues scenario_dynamic_record) = []
     \<and> filter is_description_length_issue (issues scenario_dynamic_record)
       = [''Meta description too long (218 chars, recommended: 120-160)'']"
    using dynamic scenario_presents(3,4) scenario_lengths scenario_records(2) by auto
  have h: "filter is_title_length_issue (issues (generated_metaTags ''Home'' (Some ''/og/home.png'')))
       = [''Title too short (4 chars, recommended: 50-60)'']
     \<and> filter is_description_length_issue (issues (generated_metaTags ''Home'' (Some ''/og/home.png'')))
       = []"
    using short scenario_records(3,4,5) by (simp add: string_of_nat.simps digit_char_def)
  show ?thesis using s d h by simp
qed

text \<open>
  Claim C4, at a sandbox output that has every required open-graph and card-service tag
  and a canonical link but neither a title nor a description entry: the record has no
  title and no description, and its issue list is empty, whatever the text of the
  document. On the static path the same absence gives the two issues
  \<open>Missing page title\<close> and \<open>Missing meta description\<close>.
\<close>

theorem dynamic_path_missing_title_silent:
  "checkMetaTags content (Some untitled_output) =
     Inr \<lparr> meta_title = None, meta_description = None,
           ogTags = [''title'', ''description'', ''image'', ''url''],
           twitterTags = [''card'', ''title'', ''description'', ''image''],
           canonical = True, issues = [], ogImage = Some ''x'' \<rparr>
   \<and> issues (checkMetaTags_static ''generateSEO({})'')
     = [''Missing page title'', ''Missing meta description'']"
proof -
  have "checkMetaTags_dynamic (case meta untitled_output of Some ms \<Rightarrow> ms | None \<Rightarrow> [])
          (link untitled_output) =
        Inr \<lparr> meta_title = None, meta_description = None,
              ogTags = [''title'', ''description'', ''image'', ''url''],
              twitterTags = [''card'', ''title'', ''description'', ''image''],
              canonical = True, issues = [], ogImage = Some ''x'' \<rparr>"
    by code_simp
  moreover have "issues (checkMetaTags_static ''generateSEO({})'')
     = [''Missing page title'', ''Missing meta description'']"
    by code_simp
  ultimately show ?thesis
    by (simp add: checkMetaTags_def untitled_output_def)
qed

end
